theory Spec2Isabelle
  imports Complex_Main
begin

section \<open>Errors\<close>

text \<open>
  The exceptions the script can raise, as values.  An exception that nothing catches ends the
  interpreter with a traceback on standard error and exit status 1; in the model it is the
  \<open>Inl\<close> branch of a result.
\<close>

datatype error =
    KeyError string
  | ValueError
  | OverflowError
  | ZeroDivisionError
  | TypeError
  | IndexError
  | UnboundLocalError

section \<open>Naive datetimes\<close>

text \<open>
  \<^verbatim>\<open>datetime\<close> objects without a time zone.  Python compares two of them as the tuples
  \<^verbatim>\<open>(year, month, day, hour, minute, second, microsecond)\<close>, lexicographically.
\<close>

record datetime =
  year :: int
  month :: int
  day :: int
  hour :: int
  minute :: int
  second :: int
  microsecond :: int

definition dt_tuple :: "datetime \<Rightarrow> int list" where
  "dt_tuple t = [year t, month t, day t, hour t, minute t, second t, microsecond t]"

fun lex_lt :: "int list \<Rightarrow> int list \<Rightarrow> bool" where
  "lex_lt [] [] = False"
| "lex_lt [] (y # ys) = True"
| "lex_lt (x # xs) [] = False"
| "lex_lt (x # xs) (y # ys) = (x < y \<or> (x = y \<and> lex_lt xs ys))"

definition dt_lt :: "datetime \<Rightarrow> datetime \<Rightarrow> bool" where
  "dt_lt a b = lex_lt (dt_tuple a) (dt_tuple b)"

definition is_leap :: "int \<Rightarrow> bool" where
  "is_leap y = (y mod 4 = 0 \<and> (y mod 100 \<noteq> 0 \<or> y mod 400 = 0))"

definition days_in_month :: "int \<Rightarrow> int \<Rightarrow> int" where
  "days_in_month y m =
     (if m = 2 then (if is_leap y then 29 else 28)
      else if m = 4 \<or> m = 6 \<or> m = 9 \<or> m = 11 then 30 else 31)"

text \<open>
  The constructor checks of \<^verbatim>\<open>date(y, m, d)\<close> and \<^verbatim>\<open>datetime(y, m, d, H, M, S, us)\<close>:
  each raises \<^verbatim>\<open>ValueError\<close> for a field out of range.
\<close>

definition make_datetime ::
  "int \<Rightarrow> int \<Rightarrow> int \<Rightarrow> int \<Rightarrow> int \<Rightarrow> int \<Rightarrow> int \<Rightarrow> error + datetime" where
  "make_datetime y m d H M S us =
     (if \<not> (1 \<le> y \<and> y \<le> 9999) then Inl ValueError
      else if \<not> (1 \<le> m \<and> m \<le> 12) then Inl ValueError
      else if \<not> (1 \<le> d \<and> d \<le> days_in_month y m) then Inl ValueError
      else if \<not> (0 \<le> H \<and> H \<le> 23) then Inl ValueError
      else if \<not> (0 \<le> M \<and> M \<le> 59) then Inl ValueError
      else if \<not> (0 \<le> S \<and> S \<le> 59) then Inl ValueError
      else if \<not> (0 \<le> us \<and> us \<le> 999999) then Inl ValueError
      else Inr \<lparr>year = y, month = m, day = d, hour = H, minute = M, second = S,
                microsecond = us\<rparr>)"

section \<open>Regular expressions, as \<^verbatim>\<open>re\<close> matches them\<close>

text \<open>
  Strings are lists of 8-bit characters, so the model covers ASCII input; there \<^verbatim>\<open>\d\<close> and
  \<^verbatim>\<open>[0-9]\<close> are the same class.  A character class is the string of its members.  The
  patterns of this program are sequences of groups; a group is an alternation of fixed-length
  sequences of classes (\<open>Alt\<close>) or a greedy \<^verbatim>\<open>c+\<close> (\<open>Plus\<close>).  \<open>rmatch\<close> is the
  backtracking matcher: alternatives are tried from left to right, a greedy repetition from the
  longest run down to one character, and the first choice under which the rest of the pattern
  matches wins.  It returns the text of each group and the unconsumed rest of the input.
\<close>

type_synonym cls = string

datatype item = Alt "cls list list" | Plus cls

fun first_some :: "'a option list \<Rightarrow> 'a option" where
  "first_some [] = None"
| "first_some (None # xs) = first_some xs"
| "first_some (Some x # xs) = Some x"

fun match_seq :: "cls list \<Rightarrow> string \<Rightarrow> (string \<times> string) option" where
  "match_seq [] s = Some ([], s)"
| "match_seq (c # cs) [] = None"
| "match_seq (c # cs) (x # xs) =
     (if x \<in> set c
      then (case match_seq cs xs of None \<Rightarrow> None | Some (m, r) \<Rightarrow> Some (x # m, r))
      else None)"

fun rmatch :: "item list \<Rightarrow> string \<Rightarrow> (string list \<times> string) option" where
  "rmatch [] s = Some ([], s)"
| "rmatch (Alt alts # items) s =
     first_some (map (\<lambda>a. case match_seq a s of
                             None \<Rightarrow> None
                           | Some (m, r) \<Rightarrow>
                               (case rmatch items r of
                                  None \<Rightarrow> None
                                | Some (gs, r') \<Rightarrow> Some (m # gs, r'))) alts)"
| "rmatch (Plus c # items) s =
     first_some (map (\<lambda>n. case rmatch items (drop n s) of
                             None \<Rightarrow> None
                           | Some (gs, r') \<Rightarrow> Some (take n s # gs, r'))
                     (rev [1 ..< Suc (length (takeWhile (\<lambda>x. x \<in> set c) s))]))"

definition digit :: cls where
  "digit = ''0123456789''"

definition nonzero :: cls where
  "nonzero = ''123456789''"

definition space :: cls where
  "space = [CHR '' '', CHR 0x09, CHR 0x0A, CHR 0x0B, CHR 0x0C, CHR 0x0D,
            CHR 0x1C, CHR 0x1D, CHR 0x1E, CHR 0x1F]"

definition lit :: "string \<Rightarrow> item" where
  "lit s = Alt [map (\<lambda>c. [c]) s]"

text \<open>The groups \<^verbatim>\<open>_strptime\<close> substitutes for the directives of a format.\<close>

definition re_Y :: item where
  "re_Y = Alt [[digit, digit, digit, digit]]"

definition re_m :: item where
  "re_m = Alt [[''1'', ''012''], [''0'', nonzero], [nonzero]]"

definition re_d :: item where
  "re_d = Alt [[''3'', ''01''], [''12'', digit], [''0'', nonzero], [nonzero], ['' '', nonzero]]"

definition re_H :: item where
  "re_H = Alt [[''2'', ''0123''], [''01'', digit], [digit]]"

definition re_M :: item where
  "re_M = Alt [[''012345'', digit], [digit]]"

definition re_S :: item where
  "re_S = Alt [[''6'', ''01''], [''012345'', digit], [digit]]"

definition re_f :: item where
  "re_f = Alt [replicate 6 digit, replicate 5 digit, replicate 4 digit,
               replicate 3 digit, replicate 2 digit, replicate 1 digit]"

text \<open>
  \<^verbatim>\<open>int(s)\<close> on a group's text: decimal digits, after leading white space (the day group
  may be a space and a digit).
\<close>

definition digit_val :: "char \<Rightarrow> int" where
  "digit_val c = int (of_char c) - 48"

definition py_int :: "string \<Rightarrow> int" where
  "py_int s = foldl (\<lambda>acc c. 10 * acc + digit_val c) 0 (dropWhile (\<lambda>c. c \<in> set space) s)"

text \<open>
  \<^verbatim>\<open>_strptime\<close>: the format's pattern must match at the start of the string and consume
  all of it, else \<^verbatim>\<open>ValueError\<close>.
\<close>

definition match_all :: "item list \<Rightarrow> string \<Rightarrow> error + string list" where
  "match_all re s =
     (case rmatch re s of
        None \<Rightarrow> Inl ValueError
      | Some (gs, r) \<Rightarrow> if r \<noteq> [] then Inl ValueError else Inr gs)"

text \<open>
  \<^verbatim>\<open>datetime.strptime(s, "%Y-%m-%d %H:%M:%S")\<close>.  White space in a format becomes
  \<^verbatim>\<open>\s+\<close> in the pattern.
\<close>

definition regex_arg :: "item list" where
  "regex_arg = [re_Y, lit ''-'', re_m, lit ''-'', re_d, Plus space,
                re_H, lit '':'', re_M, lit '':'', re_S]"

definition strptime_arg :: "string \<Rightarrow> error + datetime" where
  "strptime_arg s =
     (case match_all regex_arg s of
        Inl e \<Rightarrow> Inl e
      | Inr gs \<Rightarrow>
          make_datetime (py_int (gs ! 0)) (py_int (gs ! 2)) (py_int (gs ! 4))
            (py_int (gs ! 6)) (py_int (gs ! 8)) (py_int (gs ! 10)) 0)"

text \<open>
  \<^verbatim>\<open>datetime.strptime(s, "%Y-%m-%dT%H:%M:%S.%f")\<close>, and the same format followed by the
  literal \<^verbatim>\<open>-0600\<close>.  The pattern is compiled with \<^verbatim>\<open>IGNORECASE\<close>, so the literal
  \<^verbatim>\<open>T\<close> also matches \<^verbatim>\<open>t\<close>.  The fraction is padded with zeros on the right to six
  digits.
\<close>

definition regex_naive :: "item list" where
  "regex_naive = [re_Y, lit ''-'', re_m, lit ''-'', re_d, Alt [[''Tt'']],
                  re_H, lit '':'', re_M, lit '':'', re_S, lit ''.'', re_f]"

definition regex_started :: "item list" where
  "regex_started = regex_naive @ [lit ''-0600'']"

definition fields_datetime :: "string list \<Rightarrow> error + datetime" where
  "fields_datetime gs =
     make_datetime (py_int (gs ! 0)) (py_int (gs ! 2)) (py_int (gs ! 4))
       (py_int (gs ! 6)) (py_int (gs ! 8)) (py_int (gs ! 10))
       (py_int (gs ! 12 @ replicate (6 - length (gs ! 12)) CHR ''0''))"

definition strptime_naive :: "string \<Rightarrow> error + datetime" where
  "strptime_naive s =
     (case match_all regex_naive s of Inl e \<Rightarrow> Inl e | Inr gs \<Rightarrow> fields_datetime gs)"

definition strptime_started :: "string \<Rightarrow> error + datetime" where
  "strptime_started s =
     (case match_all regex_started s of Inl e \<Rightarrow> Inl e | Inr gs \<Rightarrow> fields_datetime gs)"

section \<open>Python numbers\<close>

text \<open>
  A \<^verbatim>\<open>float\<close> is an IEEE 754 binary64 value: a rational with a 53-bit significand, an
  infinity or a NaN.  The value of a finite float is kept exactly, as a rational; the two zeros
  (and the integer \<^verbatim>\<open>0\<close> the table starts from, which becomes a float at its first
  addition) are the one value \<open>Fin 0\<close>: they compare equal in Python and differ only in how they
  print.  \<open>fl\<close> rounds an exact result to the nearest float, ties to the even significand,
  as every arithmetic operation of the hardware does (subnormal results below \<open>2 ^ - 1022\<close>
  keep the spacing \<open>2 ^ - 1074\<close>; a result that rounds to \<open>2 ^ 1024\<close> or beyond,
  that is, whose exponent is 1024 or more, is an infinity).
\<close>

datatype pyfloat = Fin rat | PInf | NInf | NaN

function bits :: "int \<Rightarrow> nat" where
  "bits n = (if n \<le> 0 then 0 else Suc (bits (n div 2)))"
  by pat_completeness auto
termination
  by (relation "measure nat") auto

declare bits.simps [simp del]

definition pow2 :: "int \<Rightarrow> rat" where
  "pow2 e = (if 0 \<le> e then 2 ^ nat e else 1 / 2 ^ nat (- e))"

text \<open>\<open>ilog2 x\<close> is the exponent \<open>e\<close> with \<open>2 ^ e \<le> \<bar>x\<bar> < 2 ^ (e + 1)\<close>, for \<open>x \<noteq> 0\<close>.\<close>

definition ilog2 :: "rat \<Rightarrow> int" where
  "ilog2 x =
     (let (p, q) = quotient_of \<bar>x\<bar>;
          d = int (bits p) - int (bits q)
      in if pow2 d \<le> \<bar>x\<bar> then d else d - 1)"

text \<open>Rounding to the nearest integer, an exact half to the even neighbour.\<close>

definition rhe :: "rat \<Rightarrow> int" where
  "rhe x =
     (let n = \<lfloor>x\<rfloor>; r = x - of_int n
      in if r < 1 / 2 then n else if 1 / 2 < r then n + 1 else if even n then n else n + 1)"

definition fl :: "rat \<Rightarrow> pyfloat" where
  "fl x =
     (if x = 0 then Fin 0
      else let e = max (ilog2 x) (- 1022);
               u = pow2 (e - 52);
               y = of_int (rhe (x / u)) * u
           in if y \<noteq> 0 \<and> 1024 \<le> ilog2 y then (if 0 < x then PInf else NInf) else Fin y)"

definition fsign :: "pyfloat \<Rightarrow> int" where
  "fsign x =
     (case x of
        Fin a \<Rightarrow> (if 0 < a then 1 else if a < 0 then - 1 else 0)
      | PInf \<Rightarrow> 1
      | NInf \<Rightarrow> - 1
      | NaN \<Rightarrow> 0)"

definition signed_inf :: "int \<Rightarrow> pyfloat" where
  "signed_inf s = (if s = 0 then NaN else if 0 < s then PInf else NInf)"

text \<open>\<^verbatim>\<open>x + y\<close>, \<^verbatim>\<open>x * y\<close> and \<^verbatim>\<open>x / y\<close> on floats.\<close>

definition fadd :: "pyfloat \<Rightarrow> pyfloat \<Rightarrow> pyfloat" where
  "fadd x y =
     (case x of
        Fin a \<Rightarrow> (case y of Fin b \<Rightarrow> fl (a + b) | _ \<Rightarrow> y)
      | NaN \<Rightarrow> NaN
      | PInf \<Rightarrow> (case y of NaN \<Rightarrow> NaN | NInf \<Rightarrow> NaN | _ \<Rightarrow> PInf)
      | NInf \<Rightarrow> (case y of NaN \<Rightarrow> NaN | PInf \<Rightarrow> NaN | _ \<Rightarrow> NInf))"

definition fmul :: "pyfloat \<Rightarrow> pyfloat \<Rightarrow> pyfloat" where
  "fmul x y =
     (case x of
        Fin a \<Rightarrow>
          (case y of
             Fin b \<Rightarrow> fl (a * b)
           | NaN \<Rightarrow> NaN
           | _ \<Rightarrow> signed_inf (fsign x * fsign y))
      | NaN \<Rightarrow> NaN
      | _ \<Rightarrow> (case y of NaN \<Rightarrow> NaN | _ \<Rightarrow> signed_inf (fsign x * fsign y)))"

definition fdiv :: "pyfloat \<Rightarrow> pyfloat \<Rightarrow> error + pyfloat" where
  "fdiv x y =
     (if y = Fin 0 then Inl ZeroDivisionError
      else case x of
        Fin a \<Rightarrow>
          (case y of Fin b \<Rightarrow> Inr (fl (a / b)) | NaN \<Rightarrow> Inr NaN | _ \<Rightarrow> Inr (Fin 0))
      | NaN \<Rightarrow> Inr NaN
      | _ \<Rightarrow>
          (case y of
             Fin b \<Rightarrow> Inr (signed_inf (fsign x * fsign y))
           | _ \<Rightarrow> Inr NaN))"

text \<open>
  Converting an \<^verbatim>\<open>int\<close> to a float and the true division \<^verbatim>\<open>a / b\<close> of two
  \<^verbatim>\<open>int\<close>s are correctly rounded, and raise \<^verbatim>\<open>OverflowError\<close> instead of giving
  an infinity.
\<close>

definition finite_or_overflow :: "pyfloat \<Rightarrow> error + pyfloat" where
  "finite_or_overflow x = (case x of Fin a \<Rightarrow> Inr (Fin a) | _ \<Rightarrow> Inl OverflowError)"

definition float_of_int :: "int \<Rightarrow> error + pyfloat" where
  "float_of_int n = finite_or_overflow (fl (of_int n))"

definition int_truediv :: "int \<Rightarrow> int \<Rightarrow> error + pyfloat" where
  "int_truediv a b =
     (if b = 0 then Inl ZeroDivisionError
      else finite_or_overflow (fl (of_int a / of_int b)))"

text \<open>
  \<^verbatim>\<open>round(x, 2)\<close>: the exact value rounded to two decimals (an exact half to the even
  digit), then the float nearest to that decimal.  \<^verbatim>\<open>round(x)\<close>: the nearest
  \<^verbatim>\<open>int\<close>, an exact half to the even one.
\<close>

definition round2 :: "pyfloat \<Rightarrow> pyfloat" where
  "round2 x = (case x of Fin a \<Rightarrow> fl (of_int (rhe (a * 100)) / 100) | _ \<Rightarrow> x)"

definition py_round :: "pyfloat \<Rightarrow> error + int" where
  "py_round x =
     (case x of Fin a \<Rightarrow> Inr (rhe a) | NaN \<Rightarrow> Inl ValueError | _ \<Rightarrow> Inl OverflowError)"

text \<open>\<^verbatim>\<open>round(timeSpentSeconds/3600, 2)\<close>\<close>

definition hours_of :: "int \<Rightarrow> error + pyfloat" where
  "hours_of t = (case int_truediv t 3600 of Inl e \<Rightarrow> Inl e | Inr x \<Rightarrow> Inr (round2 x))"

section \<open>The argument parser\<close>

text \<open>
  What the process leaves behind: the lines printed to standard output (formatted values are
  kept as values, not rendered), what was written to standard error, and how it ended.
\<close>

datatype line =
    Text string
  | IssueHeader string string
  | IssueWorklog string pyfloat datetime
  | SubtaskHeader string string
  | SubtaskWorklog string pyfloat datetime
  | Between datetime datetime
  | Logged string pyfloat
  | TotalLogged pyfloat
  | TotalWorked int
  | Percent int

datatype stop = SystemExit "line list" "string list" int | Raised error

record namespace =
  startdate :: "string option"
  enddate :: "string option"
  ns_detailed :: bool

record args =
  start_datetime :: datetime
  end_datetime :: datetime
  detailed :: bool

text \<open>\<^verbatim>\<open>print_help\<close>: the text written to standard error.\<close>

definition print_help :: "string \<Rightarrow> string" where
  "print_help prog =
     ''Usage: '' @ prog @ '' -startdate YYYY-MM-DD -enddate YYYY-MM-DD'' @ [CHR 0x0A]"

text \<open>
  \<^verbatim>\<open>re.match(r'[0-9]{4}-[0-9]{2}-[0-9]{2}', s)\<close>: the pattern must match at the start of
  \<open>s\<close>; what follows the match is not looked at.
\<close>

definition regex_date :: "item list" where
  "regex_date = [Alt [replicate 4 digit], lit ''-'', Alt [replicate 2 digit], lit ''-'',
                 Alt [replicate 2 digit]]"

definition re_match_date :: "string \<Rightarrow> bool" where
  "re_match_date s = (rmatch regex_date s \<noteq> None)"

text \<open>
  Lines 37 to 62 of \<^verbatim>\<open>parse_args\<close>: the validation of the two dates.  An option that was
  not given is \<^verbatim>\<open>None\<close>, on which \<^verbatim>\<open>re.match\<close> raises \<^verbatim>\<open>TypeError\<close>.  The
  bare \<^verbatim>\<open>except\<close> turns any failure of \<^verbatim>\<open>strptime\<close> into the message and
  \<^verbatim>\<open>sys.exit(-1)\<close>.
\<close>

definition validate_dates :: "namespace \<Rightarrow> stop + args" where
  "validate_dates ns =
     (case startdate ns of
        None \<Rightarrow> Inl (Raised TypeError)
      | Some sd \<Rightarrow>
          if \<not> re_match_date sd
          then Inl (SystemExit
                      [Text ''Error: -startdate argument must take YYYY-MM-DD format''] [] (- 1))
          else
            (case enddate ns of
               None \<Rightarrow> Inl (Raised TypeError)
             | Some ed \<Rightarrow>
                 if \<not> re_match_date ed
                 then Inl (SystemExit
                             [Text ''Error: -enddate argument must take YYYY-MM-DD format''] []
                             (- 1))
                 else
                   (case strptime_arg (sd @ '' 00:00:01'') of
                      Inl e \<Rightarrow>
                        Inl (SystemExit
                               [Text (''Error: Start date '' @ sd @ '' is not a valid date'')] []
                               (- 1))
                    | Inr t0 \<Rightarrow>
                        (case strptime_arg (ed @ '' 23:59:59'') of
                           Inl e \<Rightarrow>
                             Inl (SystemExit
                                    [Text (''Error: End date '' @ ed @ '' is not a valid date'')]
                                    [] (- 1))
                         | Inr t1 \<Rightarrow>
                             Inr \<lparr>start_datetime = t0, end_datetime = t1,
                                  detailed = ns_detailed ns\<rparr>))))"

text \<open>
  \<^verbatim>\<open>parse_args\<close>.  \<open>argv\<close> is \<^verbatim>\<open>sys.argv\<close>, the program name first.  The library's
  \<^verbatim>\<open>ArgumentParser.parse_args\<close> is the parameter \<open>argparse\<close>: it returns the
  namespace or exits on its own.
\<close>

definition parse_args :: "(string list \<Rightarrow> stop + namespace) \<Rightarrow> string list \<Rightarrow> stop + args" where
  "parse_args argparse argv =
     (if length argv \<noteq> 5 \<and> length argv \<noteq> 6
      then (case argv of
              [] \<Rightarrow> Inl (Raised IndexError)
            | prog # rest \<Rightarrow> Inl (SystemExit [] [print_help prog] (- 1)))
      else (case argparse argv of Inl x \<Rightarrow> Inl x | Inr ns \<Rightarrow> validate_dates ns))"

section \<open>The aggregation loops\<close>

record work_item =
  started :: string
  displayName :: string
  timeSpentSeconds :: int

record subtask =
  sub_key :: string
  sub_summary :: string
  sub_worklog :: "work_item list"

record issue =
  key :: string
  summary :: string
  worklog :: "work_item list"
  subtasks :: "subtask list"

text \<open>
  \<^verbatim>\<open>developer_hours\<close> is a dictionary; its items are kept in insertion order.  Reading a
  missing key raises \<^verbatim>\<open>KeyError\<close>; storing to a present key keeps its place.
\<close>

type_synonym table = "(string \<times> pyfloat) list"

definition developer_hours :: table where
  "developer_hours =
     [(''Mark Coatsworth'', Fin 0),
      (''Jaime Frey'', Fin 0),
      (''John (TJ) Knoeller'', Fin 0),
      (''Todd L Miller'', Fin 0),
      (''Zach Miller'', Fin 0),
      (''Jason Patton'', Fin 0),
      (''Todd Tannenbaum'', Fin 0),
      (''Greg Thain'', Fin 0),
      (''Tim Theisen'', Fin 0)]"

definition dict_get :: "table \<Rightarrow> string \<Rightarrow> error + pyfloat" where
  "dict_get d k = (case map_of d k of None \<Rightarrow> Inl (KeyError k) | Some v \<Rightarrow> Inr v)"

fun dict_set :: "table \<Rightarrow> string \<Rightarrow> pyfloat \<Rightarrow> table" where
  "dict_set [] k v = [(k, v)]"
| "dict_set ((k', v') # d) k v = (if k' = k then (k, v) # d else (k', v') # dict_set d k v)"

text \<open>\<^verbatim>\<open>s.rfind(c)\<close> and the slice \<^verbatim>\<open>s[0:i]\<close>, where a negative \<open>i\<close> counts from the end.\<close>

definition rfind :: "string \<Rightarrow> char \<Rightarrow> int" where
  "rfind s c =
     (if c \<in> set s then int (length s) - 1 - int (length (takeWhile (\<lambda>x. x \<noteq> c) (rev s)))
      else - 1)"

definition slice_to :: "string \<Rightarrow> int \<Rightarrow> string" where
  "slice_to s i = (if i < 0 then take (nat (int (length s) + i)) s else take (nat i) s)"

text \<open>A \<^verbatim>\<open>for\<close> loop whose body may raise: the first exception ends it.\<close>

fun for_each :: "('a \<Rightarrow> 's \<Rightarrow> error + 's) \<Rightarrow> 'a list \<Rightarrow> 's \<Rightarrow> error + 's" where
  "for_each f [] s = Inr s"
| "for_each f (x # xs) s = (case f x s of Inl e \<Rightarrow> Inl e | Inr s' \<Rightarrow> for_each f xs s')"

text \<open>
  The body of the loop over a work-log (lines 105 to 115 for an issue, 122 to 132 for a
  subtask; the two differ only in the header \<open>hdr\<close> and in the detail line \<open>dl\<close> they
  print).  The state is the table, the output so far and the flag
  \<^verbatim>\<open>display_issue_header\<close> (\<^verbatim>\<open>display_subtask_header\<close>).  In
  \<^verbatim>\<open>developer_hours[k] += v\<close> the item is read, and \<^verbatim>\<open>KeyError\<close> raised, before
  \<open>v\<close> is computed.
\<close>

definition log_work ::
  "line \<Rightarrow> (string \<Rightarrow> pyfloat \<Rightarrow> datetime \<Rightarrow> line) \<Rightarrow> datetime \<Rightarrow> datetime \<Rightarrow> bool \<Rightarrow>
   work_item \<Rightarrow> table \<times> line list \<times> bool \<Rightarrow> error + table \<times> line list \<times> bool" where
  "log_work hdr dl t0 t1 det w st =
     (case st of (dh, out, flag) \<Rightarrow>
        (case strptime_started (started w) of
           Inl e \<Rightarrow> Inl e
         | Inr work_datetime \<Rightarrow>
             if dt_lt t0 work_datetime \<and> dt_lt work_datetime t1
             then
               (let out1 = (if flag \<and> det then out @ [hdr] else out);
                    flag1 = (if flag \<and> det then False else flag)
                in case (if det
                         then
                           (case strptime_naive
                                   (slice_to (started w) (rfind (started w) CHR ''-'')) of
                              Inl e \<Rightarrow> Inl e
                            | Inr started_datetime \<Rightarrow>
                                (case hours_of (timeSpentSeconds w) of
                                   Inl e \<Rightarrow> Inl e
                                 | Inr h \<Rightarrow>
                                     Inr (out1 @ [dl (displayName w) h started_datetime])))
                         else Inr out1) of
                     Inl e \<Rightarrow> Inl e
                   | Inr out2 \<Rightarrow>
                       (case dict_get dh (displayName w) of
                          Inl e \<Rightarrow> Inl e
                        | Inr v \<Rightarrow>
                            (case hours_of (timeSpentSeconds w) of
                               Inl e \<Rightarrow> Inl e
                             | Inr h \<Rightarrow>
                                 Inr (dict_set dh (displayName w) (fadd v h), out2, flag1))))
             else Inr (dh, out, flag)))"

text \<open>
  One subtask and one issue.  The work-logs and subtasks are what the issue source returned
  for them.
\<close>

definition do_subtask ::
  "datetime \<Rightarrow> datetime \<Rightarrow> bool \<Rightarrow> subtask \<Rightarrow> table \<times> line list \<Rightarrow> error + table \<times> line list" where
  "do_subtask t0 t1 det sub st =
     (case st of (dh, out) \<Rightarrow>
        (case for_each
                (log_work (SubtaskHeader (sub_key sub) (sub_summary sub)) SubtaskWorklog t0 t1 det)
                (sub_worklog sub) (dh, out, True) of
           Inl e \<Rightarrow> Inl e
         | Inr (dh', out', flag') \<Rightarrow> Inr (dh', out')))"

definition do_issue ::
  "datetime \<Rightarrow> datetime \<Rightarrow> bool \<Rightarrow> issue \<Rightarrow> table \<times> line list \<Rightarrow> error + table \<times> line list" where
  "do_issue t0 t1 det i st =
     (case st of (dh, out) \<Rightarrow>
        (case for_each
                (log_work (IssueHeader (key i) (summary i)) IssueWorklog t0 t1 det)
                (worklog i) (dh, out, True) of
           Inl e \<Rightarrow> Inl e
         | Inr (dh', out', flag') \<Rightarrow> for_each (do_subtask t0 t1 det) (subtasks i) (dh', out')))"

section \<open>The report\<close>

text \<open>
  \<^verbatim>\<open>total_hours_logged\<close> starts at 0 and each table value is added to it, in table
  order.  The percentage is
  \<^verbatim>\<open>round(total_hours_logged*100/(len(developer_hours)*40))\<close>.
\<close>

definition total_hours :: "table \<Rightarrow> pyfloat" where
  "total_hours dh = foldl fadd (Fin 0) (map snd dh)"

definition percent_effort :: "pyfloat \<Rightarrow> int \<Rightarrow> error + int" where
  "percent_effort tot n =
     (case float_of_int (n * 40) of
        Inl e \<Rightarrow> Inl e
      | Inr d \<Rightarrow>
          (case fdiv (fmul tot (Fin 100)) d of
             Inl e \<Rightarrow> Inl e
           | Inr q \<Rightarrow> py_round q))"

definition report :: "datetime \<Rightarrow> datetime \<Rightarrow> table \<Rightarrow> error + line list" where
  "report t0 t1 dh =
     (case percent_effort (total_hours dh) (int (length dh)) of
        Inl e \<Rightarrow> Inl e
      | Inr p \<Rightarrow>
          Inr ([Between t0 t1] @ map (\<lambda>(k, v). Logged k (round2 v)) dh @
               [TotalLogged (total_hours dh), TotalWorked (int (length dh) * 40), Percent p]))"

section \<open>The program\<close>

datatype outcome = Exited "line list" "string list" int | Crashed error | Done "line list"

text \<open>
  \<^verbatim>\<open>main\<close>.  \<^verbatim>\<open>SystemExit\<close> is not an \<^verbatim>\<open>Exception\<close>, so the handler around
  \<^verbatim>\<open>parse_args\<close> lets it through; after any other exception \<^verbatim>\<open>args\<close> is unbound
  and the next line raises.  \<open>issues\<close> is what the issue source returns.
\<close>

definition main ::
  "(string list \<Rightarrow> stop + namespace) \<Rightarrow> string list \<Rightarrow> issue list \<Rightarrow> outcome" where
  "main argparse argv issues =
     (case parse_args argparse argv of
        Inl (SystemExit out err code) \<Rightarrow> Exited out err code
      | Inl (Raised e) \<Rightarrow> Crashed UnboundLocalError
      | Inr a \<Rightarrow>
          (case for_each (do_issue (start_datetime a) (end_datetime a) (detailed a)) issues
                  (developer_hours, []) of
             Inl e \<Rightarrow> Crashed e
           | Inr (dh, out) \<Rightarrow>
               (case report (start_datetime a) (end_datetime a) dh of
                  Inl e \<Rightarrow> Crashed e
                | Inr ls \<Rightarrow> Done (out @ ls))))"

text \<open>The exit status the shell sees: \<^verbatim>\<open>sys.exit(n)\<close> gives \<open>n mod 256\<close>.\<close>

definition exit_status :: "outcome \<Rightarrow> int" where
  "exit_status r = (case r of Exited out err code \<Rightarrow> code mod 256 | Crashed e \<Rightarrow> 1 | Done out \<Rightarrow> 0)"

section \<open>Notions the properties are stated with\<close>

text \<open>
  A record is in the window when its time stamp parses and lies strictly between the two
  ends.  \<open>all_work\<close> lists the records of a run in the order the loops visit them: an
  issue's own work-log, then the work-log of each of its subtasks.  \<open>credited\<close> lists, for
  one author, the rounded hours of that author's in-window records, in that order.
\<close>

definition in_window :: "datetime \<Rightarrow> datetime \<Rightarrow> work_item \<Rightarrow> bool" where
  "in_window t0 t1 w =
     (case strptime_started (started w) of
        Inl e \<Rightarrow> False
      | Inr t \<Rightarrow> dt_lt t0 t \<and> dt_lt t t1)"

definition issue_work :: "issue \<Rightarrow> work_item list" where
  "issue_work i = worklog i @ concat (map sub_worklog (subtasks i))"

definition all_work :: "issue list \<Rightarrow> work_item list" where
  "all_work issues = concat (map issue_work issues)"

definition rounded_hours :: "work_item \<Rightarrow> pyfloat" where
  "rounded_hours w =
     (case int_truediv (timeSpentSeconds w) 3600 of Inl e \<Rightarrow> NaN | Inr x \<Rightarrow> round2 x)"

definition credited :: "datetime \<Rightarrow> datetime \<Rightarrow> string \<Rightarrow> work_item list \<Rightarrow> pyfloat list" where
  "credited t0 t1 k ws =
     map rounded_hours (filter (\<lambda>w. in_window t0 t1 w \<and> displayName w = k) ws)"

text \<open>The sum of the per-author values as the report displays them.\<close>

definition displayed_sum :: "table \<Rightarrow> pyfloat" where
  "displayed_sum dh = foldl fadd (Fin 0) (map (\<lambda>(k, v). round2 v) dh)"

text \<open>The window and the records of the worked examples.\<close>

definition jan_start :: datetime where
  "jan_start = \<lparr>year = 2023, month = 1, day = 1, hour = 0, minute = 0, second = 1,
                 microsecond = 0\<rparr>"

definition jan_end :: datetime where
  "jan_end = \<lparr>year = 2023, month = 1, day = 31, hour = 23, minute = 59, second = 59,
               microsecond = 0\<rparr>"

definition jan_15 :: datetime where
  "jan_15 = \<lparr>year = 2023, month = 1, day = 15, hour = 10, minute = 0, second = 0,
              microsecond = 0\<rparr>"

definition greg :: "string \<Rightarrow> int \<Rightarrow> work_item" where
  "greg s t = \<lparr>started = s, displayName = ''Greg Thain'', timeSpentSeconds = t\<rparr>"

definition logged_by :: "string \<Rightarrow> int \<Rightarrow> work_item" where
  "logged_by a t =
     \<lparr>started = ''2023-01-15T10:00:00.000-0600'', displayName = a, timeSpentSeconds = t\<rparr>"

definition mid_jan :: "int \<Rightarrow> work_item" where
  "mid_jan t = logged_by ''Greg Thain'' t"

definition example_issue :: "work_item list \<Rightarrow> issue" where
  "example_issue ws = \<lparr>key = ''HTCONDOR-1'', summary = ''Example'', worklog = ws, subtasks = []\<rparr>"

section \<open>The table after a loop\<close>

lemma lex_lt_irrefl: "\<not> lex_lt xs xs"
  by (induction xs) auto

lemma dt_lt_irrefl: "\<not> dt_lt t t"
  by (simp add: dt_lt_def lex_lt_irrefl)

lemma hours_of_rounded: "hours_of t = Inr h \<Longrightarrow> rounded_hours \<lparr>started = s, displayName = a, timeSpentSeconds = t\<rparr> = h"
  by (auto simp: hours_of_def rounded_hours_def split: sum.splits)

lemma hours_of_rounded': "hours_of (timeSpentSeconds w) = Inr h \<Longrightarrow> rounded_hours w = h"
  by (auto simp: hours_of_def rounded_hours_def split: sum.splits)

lemma log_work_Inr:
  assumes "log_work hdr dl t0 t1 det w (dh, out, flag) = Inr (dh', out', flag')"
  shows "dh' = (if in_window t0 t1 w
                then dict_set dh (displayName w)
                       (fadd (the (map_of dh (displayName w))) (rounded_hours w))
                else dh)"
    and "in_window t0 t1 w \<Longrightarrow> displayName w \<in> fst ` set dh"
  using assms
  by (auto simp: log_work_def in_window_def dict_get_def Let_def hours_of_rounded' 
      split: sum.splits if_splits option.splits dest: map_of_SomeD  intro: rev_image_eqI)

lemma map_other_id:
  "k \<notin> fst ` set dh \<Longrightarrow> map (\<lambda>(k', v). (k', if k' = k then f v else v)) dh = dh"
  by (induction dh) auto

lemma dict_set_map:
  "distinct (map fst dh) \<Longrightarrow> k \<in> fst ` set dh \<Longrightarrow>
   dict_set dh k (f (the (map_of dh k))) = map (\<lambda>(k', v). (k', if k' = k then f v else v)) dh"
proof (induction dh)
  case Nil
  then show ?case by simp
next
  case (Cons p dh)
  obtain k' v' where p: "p = (k', v')" by (cases p)
  show ?case
  proof (cases "k' = k")
    case True
    then have "k \<notin> fst ` set dh" using Cons.prems(1) p by auto
    then show ?thesis using True p by (simp add: map_other_id)
  next
    case False
    then have "k \<in> fst ` set dh" using Cons.prems(2) p by auto
    then show ?thesis using False p Cons by simp
  qed
qed

lemma dict_set_keys: "k \<in> fst ` set dh \<Longrightarrow> map fst (dict_set dh k v) = map fst dh"
proof (induction dh)
  case Nil
  then show ?case by simp
next
  case (Cons p dh)
  obtain k' v' where p: "p = (k', v')" by (cases p)
  show ?case
  proof (cases "k' = k")
    case True
    then show ?thesis using p by simp
  next
    case False
    then have "k \<in> fst ` set dh" using Cons.prems p by auto
    then show ?thesis using False p Cons.IH by simp
  qed
qed

lemma log_work_keys:
  "log_work hdr dl t0 t1 det w (dh, out, flag) = Inr (dh', out', flag') \<Longrightarrow> map fst dh' = map fst dh"
  using log_work_Inr[of hdr dl t0 t1 det w dh out flag dh' out' flag'] 
  by (auto simp: dict_set_keys)

lemma loop_table:
  "for_each (log_work hdr dl t0 t1 det) ws (dh, out, flag) = Inr (dh', out', flag') \<Longrightarrow>
   distinct (map fst dh) \<Longrightarrow>
   dh' = map (\<lambda>(k, v). (k, foldl fadd v (credited t0 t1 k ws))) dh"
proof (induction ws arbitrary: dh out flag)
  case Nil
  then show ?case by (simp add: credited_def)
next
  case (Cons w ws)
  from Cons.prems(1) obtain dh1 out1 flag1 where
    step: "log_work hdr dl t0 t1 det w (dh, out, flag) = Inr (dh1, out1, flag1)" and
    rest: "for_each (log_work hdr dl t0 t1 det) ws (dh1, out1, flag1) = Inr (dh', out', flag')"
    by (auto split: sum.splits)
  have keys: "map fst dh1 = map fst dh" using step by (rule log_work_keys)
  then have d1: "distinct (map fst dh1)" using Cons.prems(2) by simp
  have ih: "dh' = map (\<lambda>(k, v). (k, foldl fadd v (credited t0 t1 k ws))) dh1"
    using Cons.IH[OF rest d1] .
  show ?case
  proof (cases "in_window t0 t1 w")
    case True
    have mem: "displayName w \<in> fst ` set dh" using log_work_Inr(2)[OF step True] .
    have "dh1 = dict_set dh (displayName w) (fadd (the (map_of dh (displayName w))) (rounded_hours w))"
      using log_work_Inr(1)[OF step] True by simp
    also have "\<dots> = map (\<lambda>(k', v). (k', if k' = displayName w then fadd v (rounded_hours w) else v)) dh"
      using dict_set_map[OF Cons.prems(2) mem, of "\<lambda>v. fadd v (rounded_hours w)"] by simp
    finally have "dh1 = map (\<lambda>(k', v). (k', if k' = displayName w then fadd v (rounded_hours w) else v)) dh" .
    with ih True show ?thesis
      by (auto simp: credited_def)
  next
    case False
    then have "dh1 = dh" using log_work_Inr(1)[OF step] by simp
    with ih False show ?thesis by (auto simp: credited_def)
  qed
qed

lemma credited_append: "credited t0 t1 k (xs @ ys) = credited t0 t1 k xs @ credited t0 t1 k ys"
  by (simp add: credited_def)

lemma table_map_keys: "map (fst \<circ> (\<lambda>(k, v). (k, F k v))) dh = map fst dh"
  by (induction dh) auto

lemma table_map_comp:
  "map (\<lambda>(k, v). (k, G k v)) (map (\<lambda>(k, v). (k, F k v)) dh) = map (\<lambda>(k, v). (k, G k (F k v))) dh"
  by (induction dh) auto

lemma for_each_table:
  assumes step: "\<And>x dh out dh' out'. f x (dh, out) = Inr (dh', out') \<Longrightarrow> distinct (map fst dh) \<Longrightarrow>
                   dh' = map (\<lambda>(k, v). (k, foldl fadd v (credited t0 t1 k (g x)))) dh"
  shows "for_each f xs (dh, out) = Inr (dh', out') \<Longrightarrow> distinct (map fst dh) \<Longrightarrow>
         dh' = map (\<lambda>(k, v). (k, foldl fadd v (credited t0 t1 k (concat (map g xs))))) dh"
proof (induction xs arbitrary: dh out)
  case Nil
  then show ?case by (simp add: credited_def)
next
  case (Cons x xs)
  from Cons.prems(1) obtain dh1 out1 where
    first: "f x (dh, out) = Inr (dh1, out1)" and
    rest: "for_each f xs (dh1, out1) = Inr (dh', out')"
    by (auto split: sum.splits)
  have dh1: "dh1 = map (\<lambda>(k, v). (k, foldl fadd v (credited t0 t1 k (g x)))) dh"
    using step[OF first Cons.prems(2)] .
  then have "distinct (map fst dh1)"
    using Cons.prems(2) by (simp add: table_map_keys)
  from Cons.IH[OF rest this] show ?case
    by (simp add: dh1 credited_append case_prod_beta comp_def)
qed

lemma do_subtask_table:
  assumes "do_subtask t0 t1 det sub (dh, out) = Inr (dh', out')" and "distinct (map fst dh)"
  shows "dh' = map (\<lambda>(k, v). (k, foldl fadd v (credited t0 t1 k (sub_worklog sub)))) dh"
  using assms loop_table
  by (auto simp: do_subtask_def split: sum.splits)

lemma do_issue_table:
  assumes "do_issue t0 t1 det i (dh, out) = Inr (dh', out')" and "distinct (map fst dh)"
  shows "dh' = map (\<lambda>(k, v). (k, foldl fadd v (credited t0 t1 k (issue_work i)))) dh"
proof -
  from assms(1) obtain dh1 out1 flag1 where
    own: "for_each (log_work (IssueHeader (key i) (summary i)) IssueWorklog t0 t1 det)
            (worklog i) (dh, out, True) = Inr (dh1, out1, flag1)" and
    subs: "for_each (do_subtask t0 t1 det) (subtasks i) (dh1, out1) = Inr (dh', out')"
    by (auto simp: do_issue_def split: sum.splits)
  have dh1: "dh1 = map (\<lambda>(k, v). (k, foldl fadd v (credited t0 t1 k (worklog i)))) dh"
    using loop_table[OF own assms(2)] .
  then have d1: "distinct (map fst dh1)" using assms(2) by (simp add: table_map_keys)
  have "dh' = map (\<lambda>(k, v). (k, foldl fadd v
                 (credited t0 t1 k (concat (map sub_worklog (subtasks i)))))) dh1"
  proof (rule for_each_table[where f = "do_subtask t0 t1 det" and g = sub_worklog, OF _ subs d1])
    fix x dh out dh' out'
    assume "do_subtask t0 t1 det x (dh, out) = Inr (dh', out')" and "distinct (map fst dh)"
    then show "dh' = map (\<lambda>(k, v). (k, foldl fadd v (credited t0 t1 k (sub_worklog x)))) dh"
      by (rule do_subtask_table)
  qed
  then show ?thesis
    by (simp add: dh1 credited_append issue_work_def case_prod_beta comp_def)
qed

lemma run_table:
  assumes "for_each (do_issue t0 t1 det) issues (dh, out) = Inr (dh', out')"
    and "distinct (map fst dh)"
  shows "dh' = map (\<lambda>(k, v). (k, foldl fadd v (credited t0 t1 k (all_work issues)))) dh"
  unfolding all_work_def
proof (rule for_each_table[where f = "do_issue t0 t1 det" and g = issue_work, OF _ assms])
  fix x dh out dh' out'
  assume "do_issue t0 t1 det x (dh, out) = Inr (dh', out')" and "distinct (map fst dh)"
  then show "dh' = map (\<lambda>(k, v). (k, foldl fadd v (credited t0 t1 k (issue_work x)))) dh"
    by (rule do_issue_table)
qed

lemma roster_distinct: "distinct (map fst developer_hours)"
  by (simp add: developer_hours_def)

lemma for_each_append:
  "for_each f (xs @ ys) s = (case for_each f xs s of Inl e \<Rightarrow> Inl e | Inr s' \<Rightarrow> for_each f ys s')"
  by (induction xs arbitrary: s) (auto split: sum.splits)

lemma for_each_fails:
  assumes "x \<in> set xs"
    and bad: "\<And>s. P s \<Longrightarrow> \<exists>e. f x s = Inl e"
    and inv: "\<And>y s s'. P s \<Longrightarrow> f y s = Inr s' \<Longrightarrow> P s'"
    and "P s"
  shows "\<exists>e. for_each f xs s = Inl e"
  using assms(1,4)
proof (induction xs arbitrary: s)
  case Nil
  then show ?case by simp
next
  case (Cons y ys)
  show ?case
  proof (cases "f y s")
    case (Inl e)
    then show ?thesis by simp
  next
    case (Inr s')
    then have P': "P s'" using inv Cons.prems(2) by blast
    show ?thesis
    proof (cases "x = y")
      case True
      then show ?thesis using bad[OF Cons.prems(2)] Inr by auto
    next
      case False
      then have "x \<in> set ys" using Cons.prems(1) by simp
      from Cons.IH[OF this P'] show ?thesis using Inr by simp
    qed
  qed
qed

section \<open>Failure of a loop\<close>


lemma for_each_inv:
  assumes inv: "\<And>y s s'. P s \<Longrightarrow> f y s = Inr s' \<Longrightarrow> P s'"
  shows "P s \<Longrightarrow> for_each f xs s = Inr s' \<Longrightarrow> P s'"
proof (induction xs arbitrary: s)
  case Nil
  then show ?case by simp
next
  case (Cons x xs)
  from Cons.prems(2) obtain s1 where a: "f x s = Inr s1" and b: "for_each f xs s1 = Inr s'"
    by (auto split: sum.splits)
  from inv[OF Cons.prems(1) a] b show ?case by (rule Cons.IH)
qed

lemma log_work_keys_st:
  assumes "log_work hdr dl t0 t1 det w s = Inr s'"
  shows "map fst (fst s') = map fst (fst s)"
proof -
  obtain dh out flag where s: "s = (dh, out, flag)" by (cases s)
  obtain dh' out' flag' where s': "s' = (dh', out', flag')" by (cases s')
  from log_work_keys[OF assms[unfolded s s']] show ?thesis by (simp add: s s')
qed

lemma loop_keys_st:
  assumes "for_each (log_work hdr dl t0 t1 det) ws s = Inr s'"
  shows "map fst (fst s') = map fst (fst s)"
proof (rule for_each_inv[where P = "\<lambda>x. map fst (fst x) = map fst (fst s)"
      and f = "log_work hdr dl t0 t1 det", OF _ _ assms])
  fix y and x x' :: "table \<times> line list \<times> bool"
  assume "map fst (fst x) = map fst (fst s)" and "log_work hdr dl t0 t1 det y x = Inr x'"
  then show "map fst (fst x') = map fst (fst s)"
    using log_work_keys_st by metis
qed simp

lemma do_subtask_keys_st:
  assumes "do_subtask t0 t1 det sub s = Inr s'"
  shows "map fst (fst s') = map fst (fst s)"
proof -
  obtain dh out where s: "s = (dh, out)" by (cases s)
  from assms obtain x where
    x: "for_each (log_work (SubtaskHeader (sub_key sub) (sub_summary sub)) SubtaskWorklog
          t0 t1 det) (sub_worklog sub) (dh, out, True) = Inr x" and s': "fst s' = fst x"
    by (auto simp: do_subtask_def s split: sum.splits)
  from loop_keys_st[OF x] show ?thesis by (simp add: s s')
qed


lemma subtasks_keys_st:
  assumes "for_each (do_subtask t0 t1 det) subs s = Inr s'"
  shows "map fst (fst s') = map fst (fst s)"
proof (rule for_each_inv[where P = "\<lambda>x. map fst (fst x) = map fst (fst s)"
      and f = "do_subtask t0 t1 det", OF _ _ assms])
  fix y and x x' :: "table \<times> line list"
  assume "map fst (fst x) = map fst (fst s)" and "do_subtask t0 t1 det y x = Inr x'"
  then show "map fst (fst x') = map fst (fst s)"
    using do_subtask_keys_st by metis
qed simp

lemma do_issue_keys_st:
  assumes "do_issue t0 t1 det i s = Inr s'"
  shows "map fst (fst s') = map fst (fst s)"
proof -
  obtain dh out where s: "s = (dh, out)" by (cases s)
  from assms obtain x where
    x: "for_each (log_work (IssueHeader (key i) (summary i)) IssueWorklog t0 t1 det)
          (worklog i) (dh, out, True) = Inr x" and
    subs: "for_each (do_subtask t0 t1 det) (subtasks i) (fst x, fst (snd x)) = Inr s'"
    by (auto simp: do_issue_def s split: sum.splits)
  from loop_keys_st[OF x] subtasks_keys_st[OF subs] show ?thesis by (simp add: s)
qed

lemma loop_fails:
  assumes bad: "\<And>hdr dl s. map fst (fst s) = K \<Longrightarrow> \<exists>e. log_work hdr dl t0 t1 det w s = Inl e"
    and mem: "w \<in> set ws" and keys: "map fst (fst s) = K"
  shows "\<exists>e. for_each (log_work hdr dl t0 t1 det) ws s = Inl e"
proof (rule for_each_fails[where P = "\<lambda>x. map fst (fst x) = K", OF mem _ _ keys])
  fix x :: "table \<times> line list \<times> bool"
  assume "map fst (fst x) = K"
  then show "\<exists>e. log_work hdr dl t0 t1 det w x = Inl e" by (rule bad)
next
  fix y and x x' :: "table \<times> line list \<times> bool"
  assume "map fst (fst x) = K" and "log_work hdr dl t0 t1 det y x = Inr x'"
  then show "map fst (fst x') = K" using log_work_keys_st by metis
qed

lemma do_subtask_fails:
  assumes bad: "\<And>hdr dl s. map fst (fst s) = K \<Longrightarrow> \<exists>e. log_work hdr dl t0 t1 det w s = Inl e"
    and mem: "w \<in> set (sub_worklog sub)" and keys: "map fst (fst s) = K"
  shows "\<exists>e. do_subtask t0 t1 det sub s = Inl e"
proof -
  obtain dh out where s: "s = (dh, out)" by (cases s)
  have "map fst (fst (dh, out, True)) = K" using keys s by simp
  from loop_fails[OF bad mem this,
      where hdr = "SubtaskHeader (sub_key sub) (sub_summary sub)" and dl = SubtaskWorklog]
  obtain e where "for_each (log_work (SubtaskHeader (sub_key sub) (sub_summary sub))
                    SubtaskWorklog t0 t1 det) (sub_worklog sub) (dh, out, True) = Inl e"
    by blast
  then show ?thesis
    by (simp add: do_subtask_def s)
qed

lemma subtasks_fail:
  assumes bad: "\<And>hdr dl s. map fst (fst s) = K \<Longrightarrow> \<exists>e. log_work hdr dl t0 t1 det w s = Inl e"
    and sub: "sub \<in> set subs" and mem: "w \<in> set (sub_worklog sub)"
    and keys: "map fst (fst s) = K"
  shows "\<exists>e. for_each (do_subtask t0 t1 det) subs s = Inl e"
proof (rule for_each_fails[where P = "\<lambda>x. map fst (fst x) = K", OF sub _ _ keys])
  fix x :: "table \<times> line list"
  assume kx: "map fst (fst x) = K"
  show "\<exists>e. do_subtask t0 t1 det sub x = Inl e"
    using do_subtask_fails[OF bad mem kx] .
next
  fix y and x x' :: "table \<times> line list"
  assume "map fst (fst x) = K" and "do_subtask t0 t1 det y x = Inr x'"
  then show "map fst (fst x') = K" using do_subtask_keys_st by metis
qed

lemma do_issue_fails:
  assumes bad: "\<And>hdr dl s. map fst (fst s) = K \<Longrightarrow> \<exists>e. log_work hdr dl t0 t1 det w s = Inl e"
    and mem: "w \<in> set (issue_work i)" and keys: "map fst (fst s) = K"
  shows "\<exists>e. do_issue t0 t1 det i s = Inl e"
proof -
  obtain dh out where s: "s = (dh, out)" by (cases s)
  let ?own = "for_each (log_work (IssueHeader (key i) (summary i)) IssueWorklog t0 t1 det)
                (worklog i) (dh, out, True)"
  have k0: "map fst (fst (dh, out, True)) = K" using keys s by simp
  show ?thesis
  proof (cases ?own)
    case (Inl e)
    then show ?thesis by (simp add: do_issue_def s)
  next
    case (Inr x)
    obtain dh1 out1 flag1 where x: "x = (dh1, out1, flag1)" by (cases x)
    have k1: "map fst (fst (dh1, out1)) = K"
      using loop_keys_st[OF Inr] k0 x by simp
    have "w \<notin> set (worklog i)"
    proof
      assume "w \<in> set (worklog i)"
      from loop_fails[OF bad this k0,
          where hdr = "IssueHeader (key i) (summary i)" and dl = IssueWorklog]
      show False using Inr by auto
    qed
    then obtain sub where "sub \<in> set (subtasks i)" and "w \<in> set (sub_worklog sub)"
      using mem by (auto simp: issue_work_def)
    from subtasks_fail[OF bad this k1] show ?thesis
      using Inr x by (simp add: do_issue_def s)
  qed
qed

lemma run_fails:
  assumes bad: "\<And>hdr dl s. map fst (fst s) = K \<Longrightarrow> \<exists>e. log_work hdr dl t0 t1 det w s = Inl e"
    and mem: "w \<in> set (all_work issues)" and keys: "map fst (fst s) = K"
  shows "\<exists>e. for_each (do_issue t0 t1 det) issues s = Inl e"
proof -
  from mem obtain i where i: "i \<in> set issues" and w: "w \<in> set (issue_work i)"
    by (auto simp: all_work_def)
  show ?thesis
  proof (rule for_each_fails[where P = "\<lambda>x. map fst (fst x) = K", OF i _ _ keys])
    fix x :: "table \<times> line list"
    assume kx: "map fst (fst x) = K"
    show "\<exists>e. do_issue t0 t1 det i x = Inl e"
      using do_issue_fails[OF bad w kx] .
  next
    fix y and x x' :: "table \<times> line list"
    assume "map fst (fst x) = K" and "do_issue t0 t1 det y x = Inr x'"
    then show "map fst (fst x') = K" using do_issue_keys_st by metis
  qed
qed


lemma unknown_key: "k \<notin> fst ` set dh \<Longrightarrow> dict_get dh k = Inl (KeyError k)"
  by (simp add: dict_get_def map_of_eq_None_iff[THEN iffD2])

lemma log_work_unknown:
  assumes "in_window t0 t1 w" and "displayName w \<notin> fst ` set dh"
  shows "log_work hdr dl t0 t1 False w (dh, out, flag) = Inl (KeyError (displayName w))"
  using assms
  by (auto simp: log_work_def in_window_def unknown_key split: sum.splits)

lemma log_work_unknown_any:
  assumes "in_window t0 t1 w" and "displayName w \<notin> fst ` set dh"
  shows "\<exists>e. log_work hdr dl t0 t1 det w (dh, out, flag) = Inl e"
  using assms
  by (cases det) (auto simp: log_work_def in_window_def unknown_key Let_def split: sum.splits)

lemma log_work_unparsed:
  "strptime_started (started w) = Inl e \<Longrightarrow> log_work hdr dl t0 t1 det w st = Inl e"
  by (cases st) (simp add: log_work_def)

section \<open>Output of a loop in detailed mode\<close>


lemma log_work_detailed:
  assumes "log_work hdr dl t0 t1 True w (dh, out, flag) = Inr (dh', out', flag')"
  shows "in_window t0 t1 w \<longrightarrow>
           (\<exists>h t. out' = out @ (if flag then [hdr] else []) @ [dl (displayName w) h t]) \<and> \<not> flag'"
    and "\<not> in_window t0 t1 w \<longrightarrow> out' = out \<and> flag' = flag"
  using assms
  by (auto simp: log_work_def in_window_def Let_def split: sum.splits if_splits)

lemma loop_output:
  "for_each (log_work hdr dl t0 t1 True) ws (dh, out, flag) = Inr (dh', out', flag') \<Longrightarrow>
   \<exists>ds. out' = out @ (if flag \<and> (\<exists>w\<in>set ws. in_window t0 t1 w) then [hdr] else []) @ ds
        \<and> length ds = length (filter (in_window t0 t1) ws)
        \<and> (\<forall>l\<in>set ds. \<exists>a h t. l = dl a h t)"
proof (induction ws arbitrary: dh out flag)
  case Nil
  then show ?case by simp
next
  case (Cons w ws)
  from Cons.prems obtain dh1 out1 flag1 where
    step: "log_work hdr dl t0 t1 True w (dh, out, flag) = Inr (dh1, out1, flag1)" and
    rest: "for_each (log_work hdr dl t0 t1 True) ws (dh1, out1, flag1) = Inr (dh', out', flag')"
    by (auto split: sum.splits)
  from Cons.IH[OF rest] obtain ds where
    out': "out' = out1 @ (if flag1 \<and> (\<exists>w\<in>set ws. in_window t0 t1 w) then [hdr] else []) @ ds"
    and len: "length ds = length (filter (in_window t0 t1) ws)"
    and shape: "\<forall>l\<in>set ds. \<exists>a h t. l = dl a h t"
    by blast
  show ?case
  proof (cases "in_window t0 t1 w")
    case True
    with log_work_detailed(1)[OF step] obtain h t where
      out1: "out1 = out @ (if flag then [hdr] else []) @ [dl (displayName w) h t]"
      and f1: "\<not> flag1" by blast
    have "out' = out @ (if flag \<and> (\<exists>x\<in>set (w # ws). in_window t0 t1 x) then [hdr] else [])
                 @ (dl (displayName w) h t # ds)"
      using True out' out1 f1 by simp
    moreover have "length (dl (displayName w) h t # ds) =
                   length (filter (in_window t0 t1) (w # ws))"
      using True len by simp
    moreover have "\<forall>l\<in>set (dl (displayName w) h t # ds). \<exists>a h t. l = dl a h t"
      using shape by auto
    ultimately show ?thesis by blast
  next
    case False
    with log_work_detailed(2)[OF step] have "out1 = out" and "flag1 = flag" by simp_all
    then have "out' = out @ (if flag \<and> (\<exists>x\<in>set (w # ws). in_window t0 t1 x) then [hdr] else [])
                 @ ds"
      using False out' by simp
    moreover have "length ds = length (filter (in_window t0 t1) (w # ws))"
      using False len by simp
    ultimately show ?thesis using shape by blast
  qed
qed

section \<open>Evaluations used by the examples\<close>

lemma started_mid_jan: "strptime_started ''2023-01-15T10:00:00.000-0600'' = Inr jan_15"
  unfolding jan_15_def by code_simp

lemma started_first_second: "strptime_started ''2023-01-01T00:00:01.000-0600'' = Inr jan_start"
  unfolding jan_start_def by code_simp

lemma started_last_second: "strptime_started ''2023-01-31T23:59:59.000-0600'' = Inr jan_end"
  unfolding jan_end_def by code_simp

lemma jan_15_inside: "dt_lt jan_start jan_15 \<and> dt_lt jan_15 jan_end"
  by (simp add: dt_lt_def dt_tuple_def jan_start_def jan_15_def jan_end_def)

lemma hours_360: "hours_of 360 = Inr (Fin (3602879701896397 / 36028797018963968))"
  by code_simp

lemma greg_known: "map_of developer_hours ''Greg Thain'' = Some (Fin 0)"
  by (simp add: developer_hours_def)

lemma fadd_zero_tenth:
  "fadd (Fin 0) (Fin (3602879701896397 / 36028797018963968)) =
   Fin (3602879701896397 / 36028797018963968)"
  by code_simp

lemma hours_720: "hours_of 720 = Inr (Fin (3602879701896397 / 18014398509481984))"
  by code_simp
lemma hours_1080: "hours_of 1080 = Inr (Fin (5404319552844595 / 18014398509481984))"
  by code_simp
lemma hours_6480: "hours_of 6480 = Inr (Fin (8106479329266893 / 4503599627370496))"
  by code_simp

lemma fadd_tenth_fifth:
  "fadd (Fin (3602879701896397 / 36028797018963968)) (Fin (3602879701896397 / 18014398509481984)) =
   Fin (1351079888211149 / 4503599627370496)"
  by code_simp

lemma fadd_sum_three_tenths:
  "fadd (Fin (1351079888211149 / 4503599627370496)) (Fin (5404319552844595 / 18014398509481984)) =
   Fin (1351079888211149 / 2251799813685248)"
  by code_simp

lemma fadd_zero_three_tenths:
  "fadd (Fin 0) (Fin (5404319552844595 / 18014398509481984)) =
   Fin (5404319552844595 / 18014398509481984)"
  by code_simp

lemma fadd_three_tenths_fifth:
  "fadd (Fin (5404319552844595 / 18014398509481984)) (Fin (3602879701896397 / 18014398509481984)) =
   Fin (1 / 2)"
  by code_simp

lemma fadd_half_tenth:
  "fadd (Fin (1 / 2)) (Fin (3602879701896397 / 36028797018963968)) =
   Fin (5404319552844595 / 9007199254740992)"
  by code_simp

lemma map_of_dict_set: "map_of (dict_set dh k v) k = Some v"
  by (induction dh) auto

lemma dict_set_twice: "dict_set (dict_set dh k v) k v' = dict_set dh k v'"
  by (induction dh) auto

lemma log_work_plain:
  assumes "strptime_started (started w) = Inr t"
    and "map_of dh (displayName w) = Some v"
    and "hours_of (timeSpentSeconds w) = Inr h"
  shows "log_work hdr dl t0 t1 False w (dh, out, flag) =
           Inr (if dt_lt t0 t \<and> dt_lt t t1 then dict_set dh (displayName w) (fadd v h) else dh,
                out, flag)"
  using assms by (simp add: log_work_def dict_get_def)

lemma step_logged_by:
  assumes "map_of dh a = Some v" and "hours_of n = Inr h"
  shows "log_work hdr dl jan_start jan_end False (logged_by a n) (dh, out, flag) =
           Inr (dict_set dh a (fadd v h), out, flag)"
  using log_work_plain[of "logged_by a n" jan_15 dh v h hdr dl jan_start jan_end out flag] assms
  by (simp add: logged_by_def started_mid_jan jan_15_inside)

lemma three_records_forward:
  "for_each (log_work hdr dl jan_start jan_end False) [mid_jan 360, mid_jan 720, mid_jan 1080]
     (developer_hours, [], True) =
   Inr (dict_set developer_hours ''Greg Thain'' (Fin (1351079888211149 / 2251799813685248)),
        [], True)"
  by (simp add: mid_jan_def step_logged_by greg_known hours_360 hours_720 hours_1080 map_of_dict_set
        dict_set_twice fadd_zero_tenth fadd_tenth_fifth fadd_sum_three_tenths)

lemma three_records_backward:
  "for_each (log_work hdr dl jan_start jan_end False) [mid_jan 1080, mid_jan 720, mid_jan 360]
     (developer_hours, [], True) =
   Inr (dict_set developer_hours ''Greg Thain'' (Fin (5404319552844595 / 9007199254740992)),
        [], True)"
  by (simp add: mid_jan_def step_logged_by greg_known hours_360 hours_720 hours_1080 map_of_dict_set
        dict_set_twice fadd_zero_three_tenths fadd_three_tenths_fifth fadd_half_tenth)

lemma total_example:
  "total_hours (dict_set developer_hours ''Greg Thain'' (Fin (1351079888211149 / 4503599627370496))) =
   Fin (1351079888211149 / 4503599627370496)"
  by code_simp

lemma displayed_example:
  "displayed_sum (dict_set developer_hours ''Greg Thain'' (Fin (1351079888211149 / 4503599627370496))) =
   Fin (5404319552844595 / 18014398509481984)"
  by code_simp

lemma percent_example:
  "percent_effort (Fin (8106479329266893 / 4503599627370496)) 9 = Inr 0"
  by code_simp

lemma round_example: "round (8106479329266893 / 4503599627370496 * 100 / (9 * 40) :: rat) = 1"
  by code_simp

lemma mark_known: "map_of developer_hours ''Mark Coatsworth'' = Some (Fin 0)"
  by (simp add: developer_hours_def)

lemma fadd_zero_fifth:
  "fadd (Fin 0) (Fin (3602879701896397 / 18014398509481984)) =
   Fin (3602879701896397 / 18014398509481984)"
  by code_simp

lemma map_of_dict_set_other: "k' \<noteq> k \<Longrightarrow> map_of (dict_set dh k v) k' = map_of dh k'"
  by (induction dh) auto

lemma credited_by_author:
  assumes "\<forall>k. filter (\<lambda>w. displayName w = k) xs = filter (\<lambda>w. displayName w = k) ys"
  shows "credited t0 t1 k xs = credited t0 t1 k ys"
proof -
  have eq: "credited t0 t1 k zs =
            map rounded_hours (filter (in_window t0 t1) (filter (\<lambda>w. displayName w = k) zs))"
    for zs
    by (induction zs) (auto simp: credited_def)
  from assms have "filter (\<lambda>w. displayName w = k) xs = filter (\<lambda>w. displayName w = k) ys"
    by blast
  then show ?thesis by (simp only: eq)
qed

lemma fadd_zero_1_8:
  "fadd (Fin 0) (Fin (8106479329266893 / 4503599627370496)) =
   Fin (8106479329266893 / 4503599627370496)"
  by code_simp

lemma run_two_entries:
  "for_each (do_issue jan_start jan_end False) [example_issue [mid_jan 360, mid_jan 720]]
     (developer_hours, []) =
   Inr (dict_set developer_hours ''Greg Thain'' (Fin (1351079888211149 / 4503599627370496)), [])"
  by (simp add: do_issue_def example_issue_def mid_jan_def step_logged_by greg_known hours_360
        hours_720 map_of_dict_set dict_set_twice fadd_zero_tenth fadd_tenth_fifth)

lemma run_one_entry:
  "for_each (do_issue jan_start jan_end False) [example_issue [mid_jan 6480]]
     (developer_hours, []) =
   Inr (dict_set developer_hours ''Greg Thain'' (Fin (8106479329266893 / 4503599627370496)), [])"
  by (simp add: do_issue_def example_issue_def mid_jan_def step_logged_by greg_known hours_6480
        fadd_zero_1_8)

lemma report_two_entries:
  "report jan_start jan_end
     (dict_set developer_hours ''Greg Thain'' (Fin (1351079888211149 / 4503599627370496))) =
   Inr [Between jan_start jan_end,
        Logged ''Mark Coatsworth'' (Fin 0), Logged ''Jaime Frey'' (Fin 0),
        Logged ''John (TJ) Knoeller'' (Fin 0), Logged ''Todd L Miller'' (Fin 0),
        Logged ''Zach Miller'' (Fin 0), Logged ''Jason Patton'' (Fin 0),
        Logged ''Todd Tannenbaum'' (Fin 0),
        Logged ''Greg Thain'' (Fin (5404319552844595 / 18014398509481984)),
        Logged ''Tim Theisen'' (Fin 0),
        TotalLogged (Fin (1351079888211149 / 4503599627370496)), TotalWorked 360, Percent 0]"
  by code_simp

lemma report_one_entry:
  "report jan_start jan_end
     (dict_set developer_hours ''Greg Thain'' (Fin (8106479329266893 / 4503599627370496))) =
   Inr [Between jan_start jan_end,
        Logged ''Mark Coatsworth'' (Fin 0), Logged ''Jaime Frey'' (Fin 0),
        Logged ''John (TJ) Knoeller'' (Fin 0), Logged ''Todd L Miller'' (Fin 0),
        Logged ''Zach Miller'' (Fin 0), Logged ''Jason Patton'' (Fin 0),
        Logged ''Todd Tannenbaum'' (Fin 0),
        Logged ''Greg Thain'' (Fin (8106479329266893 / 4503599627370496)),
        Logged ''Tim Theisen'' (Fin 0),
        TotalLogged (Fin (8106479329266893 / 4503599627370496)), TotalWorked 360, Percent 0]"
  by code_simp

lemma quotient_one_entry:
  "fdiv (fmul (Fin (8106479329266893 / 4503599627370496)) (Fin 100)) (Fin 360) = Inr (Fin (1 / 2))"
  by code_simp

lemma rhe_nearest: "\<bar>of_int (rhe x) - x\<bar> \<le> 1 / 2"
proof -
  have "of_int \<lfloor>x\<rfloor> \<le> x" and "x < of_int \<lfloor>x\<rfloor> + 1"
    by linarith+
  then show ?thesis
    by (auto simp: rhe_def Let_def)
qed

lemma rhe_tie_even: "\<bar>of_int (rhe x) - x\<bar> = 1 / 2 \<Longrightarrow> even (rhe x)"
proof -
  assume tie: "\<bar>of_int (rhe x) - x\<bar> = 1 / 2"
  have "of_int \<lfloor>x\<rfloor> \<le> x" and "x < of_int \<lfloor>x\<rfloor> + 1"
    by linarith+
  with tie show ?thesis
    by (auto simp: rhe_def Let_def split: if_splits)
qed

lemma roster_zero: "(k, v) \<in> set developer_hours \<Longrightarrow> v = Fin 0"
  by (auto simp: developer_hours_def)

lemma displayed_two_entries:
  "displayed_sum (dict_set developer_hours ''Greg Thain'' (Fin (1351079888211149 / 4503599627370496))) =
   Fin (5404319552844595 / 18014398509481984)"
  by code_simp

lemma round_half: "round (1 / 2 :: rat) = 1"
  by code_simp

lemma naive_mid_jan:
  "strptime_naive (slice_to ''2023-01-15T10:00:00.000-0600''
                     (rfind ''2023-01-15T10:00:00.000-0600'' CHR ''-'')) = Inr jan_15"
  unfolding jan_15_def by code_simp

lemma step_logged_by_detailed:
  assumes "map_of dh a = Some v" and "hours_of n = Inr h"
  shows "log_work hdr dl jan_start jan_end True (logged_by a n) (dh, out, flag) =
           Inr (dict_set dh a (fadd v h),
                (if flag then out @ [hdr] else out) @ [dl a h jan_15], False)"
  using assms
  by (simp add: log_work_def logged_by_def started_mid_jan naive_mid_jan jan_15_inside
        dict_get_def)

lemma in_window_logged_by: "in_window jan_start jan_end (logged_by a n)"
  by (simp add: in_window_def logged_by_def started_mid_jan jan_15_inside)

lemma not_in_window_first_second:
  "\<not> in_window jan_start jan_end (greg ''2023-01-01T00:00:01.000-0600'' n)"
  by (simp add: in_window_def greg_def started_first_second dt_lt_irrefl)

lemma nobody_unknown: "''Nobody'' \<notin> fst ` set developer_hours"
  by (simp add: developer_hours_def)

section \<open>The date window\<close>

text \<open>
  C1.  For a record whose time stamp parses to \<open>t\<close> and whose author is in the table, the
  loop body adds the record's rounded hours to the author's total exactly when
  \<open>t0 < t < t1\<close>, both comparisons strict, and leaves the table as it is otherwise; in
  particular a record with \<open>t = t0\<close> or \<open>t = t1\<close> changes nothing.  In detailed mode
  the table of a completed step is the same.
\<close>

theorem window_strict:
  assumes "strptime_started (started w) = Inr t"
    and "map_of dh (displayName w) = Some v"
    and "hours_of (timeSpentSeconds w) = Inr h"
  shows "log_work hdr dl t0 t1 False w (dh, out, flag) =
           Inr (if dt_lt t0 t \<and> dt_lt t t1 then dict_set dh (displayName w) (fadd v h) else dh,
                out, flag)
         \<and> (t = t0 \<or> t = t1 \<longrightarrow>
              log_work hdr dl t0 t1 det w (dh, out, flag) = Inr (dh, out, flag))
         \<and> (log_work hdr dl t0 t1 det w (dh, out, flag) = Inr (dh', out', flag') \<longrightarrow>
              dh' = (if dt_lt t0 t \<and> dt_lt t t1
                     then dict_set dh (displayName w) (fadd v h) else dh))"
proof (intro conjI impI)
  show "log_work hdr dl t0 t1 False w (dh, out, flag) =
          Inr (if dt_lt t0 t \<and> dt_lt t t1 then dict_set dh (displayName w) (fadd v h) else dh,
               out, flag)"
    using assms by (simp add: log_work_def dict_get_def)
next
  assume "t = t0 \<or> t = t1"
  then consider "\<not> dt_lt t0 t" | "\<not> dt_lt t t1"
    using dt_lt_irrefl by auto
  then show "log_work hdr dl t0 t1 det w (dh, out, flag) = Inr (dh, out, flag)"
    using assms(1) by cases (simp_all add: log_work_def)
next
  assume "log_work hdr dl t0 t1 det w (dh, out, flag) = Inr (dh', out', flag')"
  then show "dh' = (if dt_lt t0 t \<and> dt_lt t t1
                    then dict_set dh (displayName w) (fadd v h) else dh)"
    using assms
    by (auto simp: log_work_def dict_get_def Let_def split: sum.splits if_splits)
qed

theorem window_strict_witness:
  "log_work (IssueHeader ''K'' ''S'') IssueWorklog jan_start jan_end False (mid_jan 360)
     (developer_hours, [], True) =
     Inr (dict_set developer_hours ''Greg Thain'' (Fin (3602879701896397 / 36028797018963968)),
          [], True)
   \<and> log_work (IssueHeader ''K'' ''S'') IssueWorklog jan_start jan_end True
       (greg ''2023-01-01T00:00:01.000-0600'' 360) (developer_hours, [], True) =
       Inr (developer_hours, [], True)
   \<and> log_work (IssueHeader ''K'' ''S'') IssueWorklog jan_start jan_end True
       (greg ''2023-01-31T23:59:59.000-0600'' 360) (developer_hours, [], True) =
       Inr (developer_hours, [], True)"
proof -
  have known: "map_of developer_hours (displayName (greg s 360)) = Some (Fin 0)" for s
    by (simp add: greg_def greg_known)
  have hrs: "hours_of (timeSpentSeconds (greg s 360)) =
               Inr (Fin (3602879701896397 / 36028797018963968))" for s
    by (simp add: greg_def hours_360)
  have p1: "strptime_started (started (mid_jan 360)) = Inr jan_15"
    by (simp add: mid_jan_def logged_by_def started_mid_jan)
  have k1: "map_of developer_hours (displayName (mid_jan 360)) = Some (Fin 0)"
    by (simp add: mid_jan_def logged_by_def greg_known)
  have h1: "hours_of (timeSpentSeconds (mid_jan 360)) =
              Inr (Fin (3602879701896397 / 36028797018963968))"
    by (simp add: mid_jan_def logged_by_def hours_360)
  have p2: "strptime_started (started (greg ''2023-01-01T00:00:01.000-0600'' 360)) = Inr jan_start"
    by (simp add: greg_def started_first_second)
  have p3: "strptime_started (started (greg ''2023-01-31T23:59:59.000-0600'' 360)) = Inr jan_end"
    by (simp add: greg_def started_last_second)
  show ?thesis
    using window_strict [OF p1 k1 h1,
            where hdr = "IssueHeader ''K'' ''S''" and dl = IssueWorklog and ?t0.0 = jan_start
              and ?t1.0 = jan_end and out = "[]" and flag = True]
          window_strict [OF p2 known hrs,
            where hdr = "IssueHeader ''K'' ''S''" and dl = IssueWorklog and ?t0.0 = jan_start
              and ?t1.0 = jan_end and out = "[]" and flag = True and det = True]
          window_strict [OF p3 known hrs,
            where hdr = "IssueHeader ''K'' ''S''" and dl = IssueWorklog and ?t0.0 = jan_start
              and ?t1.0 = jan_end and out = "[]" and flag = True and det = True]
    by (simp add: jan_15_inside fadd_zero_tenth mid_jan_def logged_by_def greg_def)
qed

section \<open>The command line\<close>

text \<open>
  C9.  When \<^verbatim>\<open>sys.argv\<close> (the program name included) has neither 5 nor 6 elements, the
  program writes the usage text to standard error, prints nothing to standard output and exits
  with \<^verbatim>\<open>sys.exit(-1)\<close>, status 255: whatever the argument parser would have returned and
  whatever the issue source holds, so before any date is validated and before any remote call.
\<close>

theorem wrong_count_usage:
  assumes "length argv \<noteq> 5" and "length argv \<noteq> 6" and "argv \<noteq> []"
  shows "main argparse argv issues = Exited [] [print_help (hd argv)] (- 1)
         \<and> exit_status (main argparse argv issues) = 255"
  using assms by (cases argv) (simp_all add: main_def parse_args_def exit_status_def)

theorem wrong_count_usage_witness:
  "length [''prog'', ''-startdate'', ''2023-01-01''] \<noteq> 5
   \<and> length [''prog'', ''-startdate'', ''2023-01-01''] \<noteq> 6
   \<and> main (\<lambda>a. Inl (Raised TypeError)) [''prog'', ''-startdate'', ''2023-01-01''] [] =
       Exited [] [''Usage: prog -startdate YYYY-MM-DD -enddate YYYY-MM-DD'' @ [CHR 0x0A]] (- 1)
   \<and> exit_status (main (\<lambda>a. Inl (Raised TypeError)) [''prog'', ''-startdate'', ''2023-01-01'']
        []) = 255"
  using wrong_count_usage [of "[''prog'', ''-startdate'', ''2023-01-01'']"
          "\<lambda>a. Inl (Raised TypeError)" "[]"]
  by (simp add: print_help_def exit_status_def)

section \<open>Order of the records\<close>

text \<open>
  C8, as stated (any reordering of the records gives the same per-author totals), fails: float
  addition is not associative.  Three records of one author, of 360, 720 and 1080 seconds
  (0.1, 0.2 and 0.3 hours), give that author 0.6000000000000001 in this order and 0.6 in the
  reverse order.
\<close>

theorem order_changes_total:
  "for_each (log_work (IssueHeader ''K'' ''S'') IssueWorklog jan_start jan_end False)
     [mid_jan 360, mid_jan 720, mid_jan 1080] (developer_hours, [], True) =
   Inr (dict_set developer_hours ''Greg Thain'' (Fin (1351079888211149 / 2251799813685248)),
        [], True)
   \<and> for_each (log_work (IssueHeader ''K'' ''S'') IssueWorklog jan_start jan_end False)
       [mid_jan 1080, mid_jan 720, mid_jan 360] (developer_hours, [], True) =
     Inr (dict_set developer_hours ''Greg Thain'' (Fin (5404319552844595 / 9007199254740992)),
          [], True)
   \<and> map_of (dict_set developer_hours ''Greg Thain'' (Fin (1351079888211149 / 2251799813685248)))
         ''Greg Thain'' \<noteq>
     map_of (dict_set developer_hours ''Greg Thain'' (Fin (5404319552844595 / 9007199254740992)))
         ''Greg Thain''"
  unfolding three_records_forward three_records_backward
  by (simp add: map_of_dict_set)

text \<open>
  C8, amended.  The per-author totals depend only on the order of each author's own records:
  two sequences of records in which every author's records appear in the same relative order
  (records of different authors interleaved in any way) leave the same table, whenever both
  loops complete.
\<close>

theorem totals_depend_on_author_order:
  assumes "distinct (map fst dh)"
    and "\<forall>k. filter (\<lambda>w. displayName w = k) xs = filter (\<lambda>w. displayName w = k) ys"
    and "for_each (log_work hdr dl t0 t1 det) xs (dh, out, flag) = Inr (dh1, out1, flag1)"
    and "for_each (log_work hdr' dl' t0 t1 det') ys (dh, out', flag') = Inr (dh2, out2, flag2)"
  shows "dh1 = dh2"
  using loop_table[OF assms(3) assms(1)] loop_table[OF assms(4) assms(1)]
    credited_by_author[OF assms(2)]
  by simp

theorem totals_depend_on_author_order_witness:
  "distinct (map fst developer_hours)
   \<and> (\<forall>k. filter (\<lambda>w. displayName w = k) [mid_jan 360, logged_by ''Mark Coatsworth'' 720] =
           filter (\<lambda>w. displayName w = k) [logged_by ''Mark Coatsworth'' 720, mid_jan 360])
   \<and> for_each (log_work (IssueHeader ''K'' ''S'') IssueWorklog jan_start jan_end False)
        [mid_jan 360, logged_by ''Mark Coatsworth'' 720] (developer_hours, [], True) =
      Inr (dict_set (dict_set developer_hours ''Greg Thain''
                       (Fin (3602879701896397 / 36028797018963968)))
             ''Mark Coatsworth'' (Fin (3602879701896397 / 18014398509481984)), [], True)
   \<and> for_each (log_work (IssueHeader ''K'' ''S'') IssueWorklog jan_start jan_end False)
        [logged_by ''Mark Coatsworth'' 720, mid_jan 360] (developer_hours, [], True) =
      Inr (dict_set (dict_set developer_hours ''Greg Thain''
                       (Fin (3602879701896397 / 36028797018963968)))
             ''Mark Coatsworth'' (Fin (3602879701896397 / 18014398509481984)), [], True)"
proof -
  let ?f = "log_work (IssueHeader ''K'' ''S'') IssueWorklog jan_start jan_end False"
  let ?tg = "dict_set developer_hours ''Greg Thain'' (Fin (3602879701896397 / 36028797018963968))"
  let ?tm = "dict_set developer_hours ''Mark Coatsworth'' (Fin (3602879701896397 / 18014398509481984))"
  have a: "for_each ?f [mid_jan 360, logged_by ''Mark Coatsworth'' 720] (developer_hours, [], True) =
           Inr (dict_set ?tg ''Mark Coatsworth'' (Fin (3602879701896397 / 18014398509481984)), [], True)"
    by (simp add: mid_jan_def step_logged_by greg_known mark_known hours_360 hours_720
          map_of_dict_set_other fadd_zero_tenth fadd_zero_fifth)
  have b: "for_each ?f [logged_by ''Mark Coatsworth'' 720, mid_jan 360] (developer_hours, [], True) =
           Inr (dict_set ?tm ''Greg Thain'' (Fin (3602879701896397 / 36028797018963968)), [], True)"
    by (simp add: mid_jan_def step_logged_by greg_known mark_known hours_360 hours_720
          map_of_dict_set_other fadd_zero_tenth fadd_zero_fifth)
  have c: "\<forall>k. filter (\<lambda>w. displayName w = k) [mid_jan 360, logged_by ''Mark Coatsworth'' 720] =
               filter (\<lambda>w. displayName w = k) [logged_by ''Mark Coatsworth'' 720, mid_jan 360]"
    by (simp add: mid_jan_def logged_by_def)
  show ?thesis
    using totals_depend_on_author_order [OF roster_distinct c a b] a b c roster_distinct
    by simp
qed

section \<open>Rounding and the grand total\<close>

text \<open>
  C2, as stated (the grand total is the sum of the per-author values as displayed, rounded to
  two decimals), fails.  The report rounds an accumulator only to print it and adds the
  accumulators themselves.  With two records of one author, of 360 and 720 seconds, the
  accumulator is 0.1 + 0.2 = 0.30000000000000004; the author's line shows 0.3, so the displayed
  values add up to 0.3, and the total printed is 0.30000000000000004.
\<close>

theorem total_differs_from_displayed_sum:
  "for_each (do_issue jan_start jan_end False) [example_issue [mid_jan 360, mid_jan 720]]
     (developer_hours, []) =
   Inr (dict_set developer_hours ''Greg Thain'' (Fin (1351079888211149 / 4503599627370496)), [])
   \<and> report jan_start jan_end
       (dict_set developer_hours ''Greg Thain'' (Fin (1351079888211149 / 4503599627370496))) =
     Inr [Between jan_start jan_end,
        Logged ''Mark Coatsworth'' (Fin 0), Logged ''Jaime Frey'' (Fin 0),
        Logged ''John (TJ) Knoeller'' (Fin 0), Logged ''Todd L Miller'' (Fin 0),
        Logged ''Zach Miller'' (Fin 0), Logged ''Jason Patton'' (Fin 0),
        Logged ''Todd Tannenbaum'' (Fin 0),
        Logged ''Greg Thain'' (Fin (5404319552844595 / 18014398509481984)),
        Logged ''Tim Theisen'' (Fin 0),
        TotalLogged (Fin (1351079888211149 / 4503599627370496)), TotalWorked 360, Percent 0]
   \<and> displayed_sum (dict_set developer_hours ''Greg Thain'' (Fin (1351079888211149 / 4503599627370496))) =
     Fin (5404319552844595 / 18014398509481984)
   \<and> Fin (1351079888211149 / 4503599627370496) \<noteq> Fin (5404319552844595 / 18014398509481984)"
  by (intro conjI run_two_entries report_two_entries displayed_two_entries) simp

text \<open>
  C2, amended.  Each in-window record adds \<^verbatim>\<open>round(timeSpentSeconds/3600, 2)\<close> to its
  author's accumulator, so an accumulator is the float sum, in the order of the run, of the
  rounded hours of that author's in-window records.  The report prints each accumulator rounded
  to two decimals, and as grand total the float sum, in table order, of the accumulators
  themselves; nothing rounds that total.
\<close>

theorem grand_total_of_accumulators:
  assumes "for_each (do_issue t0 t1 det) issues (developer_hours, []) = Inr (dh, out)"
    and "report t0 t1 dh = Inr ls"
  shows "dh = map (\<lambda>(k, z). (k, foldl fadd (Fin 0) (credited t0 t1 k (all_work issues))))
                developer_hours
         \<and> (\<exists>p. ls = Between t0 t1 # map (\<lambda>(k, v). Logged k (round2 v)) dh @
                      [TotalLogged (foldl fadd (Fin 0) (map snd dh)),
                       TotalWorked 360, Percent p])"
proof
  have "dh = map (\<lambda>(k, v). (k, foldl fadd v (credited t0 t1 k (all_work issues))))
               developer_hours"
    using run_table[OF assms(1) roster_distinct] .
  also have "\<dots> = map (\<lambda>(k, z). (k, foldl fadd (Fin 0) (credited t0 t1 k (all_work issues))))
                     developer_hours"
    by (rule map_cong) (auto dest: roster_zero)
  finally show dh: "dh = map (\<lambda>(k, z). (k, foldl fadd (Fin 0) (credited t0 t1 k (all_work issues))))
               developer_hours" .
  have "length dh = 9" by (simp add: dh developer_hours_def)
  then show "\<exists>p. ls = Between t0 t1 # map (\<lambda>(k, v). Logged k (round2 v)) dh @
                      [TotalLogged (foldl fadd (Fin 0) (map snd dh)),
                       TotalWorked 360, Percent p]"
    using assms(2) by (auto simp: report_def total_hours_def split: sum.splits)
qed

theorem grand_total_of_accumulators_witness:
  "for_each (do_issue jan_start jan_end False) [example_issue [mid_jan 360, mid_jan 720]]
     (developer_hours, []) =
   Inr (dict_set developer_hours ''Greg Thain'' (Fin (1351079888211149 / 4503599627370496)), [])
   \<and> report jan_start jan_end
       (dict_set developer_hours ''Greg Thain'' (Fin (1351079888211149 / 4503599627370496))) =
     Inr [Between jan_start jan_end,
        Logged ''Mark Coatsworth'' (Fin 0), Logged ''Jaime Frey'' (Fin 0),
        Logged ''John (TJ) Knoeller'' (Fin 0), Logged ''Todd L Miller'' (Fin 0),
        Logged ''Zach Miller'' (Fin 0), Logged ''Jason Patton'' (Fin 0),
        Logged ''Todd Tannenbaum'' (Fin 0),
        Logged ''Greg Thain'' (Fin (5404319552844595 / 18014398509481984)),
        Logged ''Tim Theisen'' (Fin 0),
        TotalLogged (Fin (1351079888211149 / 4503599627370496)), TotalWorked 360, Percent 0]
   \<and> dict_set developer_hours ''Greg Thain'' (Fin (1351079888211149 / 4503599627370496)) =
     map (\<lambda>(k, z). (k, foldl fadd (Fin 0)
            (credited jan_start jan_end k (all_work [example_issue [mid_jan 360, mid_jan 720]]))))
       developer_hours"
  by (intro conjI run_two_entries report_two_entries
        grand_total_of_accumulators [OF run_two_entries report_two_entries, THEN conjunct1])

section \<open>The percentage\<close>

text \<open>
  C3, as stated (rounding to the nearest integer in the standard way, a half going up), fails.
  One record of 6480 seconds gives a total of 1.8 hours; \<^verbatim>\<open>1.8*100/360\<close> is the float
  0.5 and the report prints 0 per cent, where rounding a half up gives 1 (as does rounding the
  exact quotient, which lies just above a half).
\<close>

theorem percent_not_half_up:
  "for_each (do_issue jan_start jan_end False) [example_issue [mid_jan 6480]]
     (developer_hours, []) =
   Inr (dict_set developer_hours ''Greg Thain'' (Fin (8106479329266893 / 4503599627370496)), [])
   \<and> report jan_start jan_end
       (dict_set developer_hours ''Greg Thain'' (Fin (8106479329266893 / 4503599627370496))) =
     Inr [Between jan_start jan_end,
        Logged ''Mark Coatsworth'' (Fin 0), Logged ''Jaime Frey'' (Fin 0),
        Logged ''John (TJ) Knoeller'' (Fin 0), Logged ''Todd L Miller'' (Fin 0),
        Logged ''Zach Miller'' (Fin 0), Logged ''Jason Patton'' (Fin 0),
        Logged ''Todd Tannenbaum'' (Fin 0),
        Logged ''Greg Thain'' (Fin (8106479329266893 / 4503599627370496)),
        Logged ''Tim Theisen'' (Fin 0),
        TotalLogged (Fin (8106479329266893 / 4503599627370496)), TotalWorked 360, Percent 0]
   \<and> fdiv (fmul (Fin (8106479329266893 / 4503599627370496)) (Fin 100)) (Fin 360) =
     Inr (Fin (1 / 2))
   \<and> round (1 / 2 :: rat) = 1
   \<and> round (8106479329266893 / 4503599627370496 * 100 / (9 * 40) :: rat) = 1"
  by (intro conjI run_one_entry report_one_entry quotient_one_entry round_half round_example)

text \<open>
  C3, amended.  The percentage printed is \<^verbatim>\<open>round\<close> of the float quotient
  \<^verbatim>\<open>total*100/(n*40)\<close>, \<open>n\<close> the size of the table: an integer nearest to that
  quotient, and the even one of the two when the quotient lies exactly half-way.
\<close>

theorem percent_rounds_half_even:
  assumes "report t0 t1 dh = Inr ls"
  shows "\<exists>p d q. last ls = Percent p
           \<and> float_of_int (int (length dh) * 40) = Inr d
           \<and> fdiv (fmul (total_hours dh) (Fin 100)) d = Inr (Fin q)
           \<and> \<bar>of_int p - q\<bar> \<le> 1 / 2
           \<and> (\<bar>of_int p - q\<bar> = 1 / 2 \<longrightarrow> even p)"
proof -
  from assms obtain p where p: "percent_effort (total_hours dh) (int (length dh)) = Inr p"
    and ls: "last ls = Percent p"
    by (auto simp: report_def split: sum.splits)
  from p obtain d q where d: "float_of_int (int (length dh) * 40) = Inr d"
    and q: "fdiv (fmul (total_hours dh) (Fin 100)) d = Inr (Fin q)"
    and r: "p = rhe q"
    by (auto simp: percent_effort_def py_round_def split: sum.splits pyfloat.splits)
  have near: "\<bar>of_int p - q\<bar> \<le> 1 / 2"
    unfolding r by (rule rhe_nearest)
  have tie: "\<bar>of_int p - q\<bar> = 1 / 2 \<longrightarrow> even p"
    unfolding r by (rule impI) (rule rhe_tie_even)
  from ls d q near tie show ?thesis by blast
qed

theorem percent_rounds_half_even_witness:
  "report jan_start jan_end
     (dict_set developer_hours ''Greg Thain'' (Fin (8106479329266893 / 4503599627370496))) =
   Inr [Between jan_start jan_end,
        Logged ''Mark Coatsworth'' (Fin 0), Logged ''Jaime Frey'' (Fin 0),
        Logged ''John (TJ) Knoeller'' (Fin 0), Logged ''Todd L Miller'' (Fin 0),
        Logged ''Zach Miller'' (Fin 0), Logged ''Jason Patton'' (Fin 0),
        Logged ''Todd Tannenbaum'' (Fin 0),
        Logged ''Greg Thain'' (Fin (8106479329266893 / 4503599627370496)),
        Logged ''Tim Theisen'' (Fin 0),
        TotalLogged (Fin (8106479329266893 / 4503599627370496)), TotalWorked 360, Percent 0]
   \<and> (\<exists>p d q. last [Between jan_start jan_end,
        Logged ''Mark Coatsworth'' (Fin 0), Logged ''Jaime Frey'' (Fin 0),
        Logged ''John (TJ) Knoeller'' (Fin 0), Logged ''Todd L Miller'' (Fin 0),
        Logged ''Zach Miller'' (Fin 0), Logged ''Jason Patton'' (Fin 0),
        Logged ''Todd Tannenbaum'' (Fin 0),
        Logged ''Greg Thain'' (Fin (8106479329266893 / 4503599627370496)),
        Logged ''Tim Theisen'' (Fin 0),
        TotalLogged (Fin (8106479329266893 / 4503599627370496)), TotalWorked 360, Percent 0] = Percent p
         \<and> float_of_int (int (length (dict_set developer_hours ''Greg Thain'' (Fin (8106479329266893 / 4503599627370496)))) * 40) = Inr d
         \<and> fdiv (fmul (total_hours (dict_set developer_hours ''Greg Thain'' (Fin (8106479329266893 / 4503599627370496)))) (Fin 100)) d = Inr (Fin q)
         \<and> \<bar>of_int p - q\<bar> \<le> 1 / 2
         \<and> (\<bar>of_int p - q\<bar> = 1 / 2 \<longrightarrow> even p))"
  by (intro conjI report_one_entry percent_rounds_half_even [OF report_one_entry])

section \<open>Unknown authors\<close>

text \<open>
  C4.  An in-window record whose author is not a key of the table stops the run with
  \<^verbatim>\<open>KeyError\<close> for that author: the loop body raises it; when the records before it
  went through, the loop over the work-log ends with that error, so the record is not skipped
  and no later record is processed; and a run over issues that contain such a record ends
  with an exception, so no table with a new key and no report come out of it.
\<close>

theorem unknown_author_fatal:
  assumes "in_window t0 t1 w" and "displayName w \<notin> fst ` set dh"
  shows "log_work hdr dl t0 t1 False w (dh, out, flag) = Inl (KeyError (displayName w))
         \<and> (for_each (log_work hdr dl t0 t1 False) xs (dh, out, flag) = Inr st \<longrightarrow>
              for_each (log_work hdr dl t0 t1 False) (xs @ w # ys) (dh, out, flag) =
                Inl (KeyError (displayName w)))
         \<and> (w \<in> set (all_work issues) \<longrightarrow>
              (\<exists>e. for_each (do_issue t0 t1 det) issues (dh, out') = Inl e))"
proof (intro conjI impI)
  show "log_work hdr dl t0 t1 False w (dh, out, flag) = Inl (KeyError (displayName w))"
    using assms by (rule log_work_unknown)
next
  assume xs: "for_each (log_work hdr dl t0 t1 False) xs (dh, out, flag) = Inr st"
  obtain dh1 out1 flag1 where st: "st = (dh1, out1, flag1)" by (cases st)
  have "map fst dh1 = map fst dh" using loop_keys_st[OF xs] st by simp
  then have "fst ` set dh1 = fst ` set dh" by (metis set_map)
  then have "displayName w \<notin> fst ` set dh1" using assms(2) by simp
  from log_work_unknown[OF assms(1) this]
  show "for_each (log_work hdr dl t0 t1 False) (xs @ w # ys) (dh, out, flag) =
          Inl (KeyError (displayName w))"
    by (simp add: for_each_append xs st)
next
  assume mem: "w \<in> set (all_work issues)"
  have bad: "\<exists>e. log_work hdr dl t0 t1 det w s = Inl e"
    if "map fst (fst s) = map fst dh" for hdr dl and s :: "table \<times> line list \<times> bool"
  proof -
    obtain dh1 out1 flag1 where s: "s = (dh1, out1, flag1)" by (cases s)
    have "fst ` set dh1 = fst ` set dh" using that s by (metis fst_conv set_map)
    then have "displayName w \<notin> fst ` set dh1" using assms(2) by simp
    from log_work_unknown_any[OF assms(1) this] show ?thesis by (simp add: s)
  qed
  show "\<exists>e. for_each (do_issue t0 t1 det) issues (dh, out') = Inl e"
    by (rule run_fails[OF bad mem]) simp_all
qed

theorem unknown_author_fatal_witness:
  "in_window jan_start jan_end (logged_by ''Nobody'' 360)
   \<and> displayName (logged_by ''Nobody'' 360) \<notin> fst ` set developer_hours
   \<and> log_work (IssueHeader ''K'' ''S'') IssueWorklog jan_start jan_end False
       (logged_by ''Nobody'' 360) (developer_hours, [], True) = Inl (KeyError ''Nobody'')
   \<and> for_each (log_work (IssueHeader ''K'' ''S'') IssueWorklog jan_start jan_end False)
       ([mid_jan 360] @ logged_by ''Nobody'' 360 # [mid_jan 720]) (developer_hours, [], True) =
     Inl (KeyError ''Nobody'')
   \<and> (\<exists>e. for_each (do_issue jan_start jan_end True)
             [example_issue [mid_jan 360, logged_by ''Nobody'' 360]] (developer_hours, []) = Inl e)"
proof -
  have w: "in_window jan_start jan_end (logged_by ''Nobody'' 360)"
    by (rule in_window_logged_by)
  have u: "displayName (logged_by ''Nobody'' 360) \<notin> fst ` set developer_hours"
    using nobody_unknown by (simp add: logged_by_def)
  have pre: "for_each (log_work (IssueHeader ''K'' ''S'') IssueWorklog jan_start jan_end False)
               [mid_jan 360] (developer_hours, [], True) =
             Inr (dict_set developer_hours ''Greg Thain''
                    (Fin (3602879701896397 / 36028797018963968)), [], True)"
    by (simp add: mid_jan_def step_logged_by greg_known hours_360 fadd_zero_tenth)
  have mem: "logged_by ''Nobody'' 360 \<in>
               set (all_work [example_issue [mid_jan 360, logged_by ''Nobody'' 360]])"
    by (simp add: all_work_def issue_work_def example_issue_def)
  have n: "displayName (logged_by ''Nobody'' 360) = ''Nobody''"
    by (simp add: logged_by_def)
  show ?thesis
    using unknown_author_fatal [OF w u, where hdr = "IssueHeader ''K'' ''S''"
        and dl = IssueWorklog and out = "[]" and flag = True and xs = "[mid_jan 360]"
        and ys = "[mid_jan 720]" and det = True and out' = "[]"
        and issues = "[example_issue [mid_jan 360, logged_by ''Nobody'' 360]]"] w u pre mem
    by (simp add: n)
qed

section \<open>Headers in detailed mode\<close>

text \<open>
  C7.  In detailed mode the loop over one work-log (an issue's own, or a subtask's: the header
  \<open>hdr\<close> and the detail lines \<open>dl\<close> differ) appends nothing to the output when no
  record is in the window, and otherwise appends the header exactly once, followed by one
  detail line for each in-window record.
\<close>

theorem header_once:
  assumes "for_each (log_work hdr dl t0 t1 True) ws (dh, out, True) = Inr (dh', out', flag')"
    and "\<forall>a h t. dl a h t \<noteq> hdr"
  shows "take (length out) out' = out
         \<and> count_list (drop (length out) out') hdr =
             (if \<exists>w\<in>set ws. in_window t0 t1 w then 1 else 0)
         \<and> length (drop (length out) out') =
             (if \<exists>w\<in>set ws. in_window t0 t1 w
              then Suc (length (filter (in_window t0 t1) ws)) else 0)"
proof -
  from loop_output[OF assms(1)] obtain ds where
    out': "out' = out @ (if \<exists>w\<in>set ws. in_window t0 t1 w then [hdr] else []) @ ds"
    and len: "length ds = length (filter (in_window t0 t1) ws)"
    and shape: "\<forall>l\<in>set ds. \<exists>a h t. l = dl a h t"
    by auto
  have "hdr \<notin> set ds" using shape assms(2) by metis
  then have c0: "count_list ds hdr = 0" by (simp add: count_list_0_iff)
  have none: "ds = []" if "\<not> (\<exists>w\<in>set ws. in_window t0 t1 w)"
    using that len by (simp add: filter_empty_conv[THEN iffD2])
  show ?thesis
    using out' len c0 none by auto
qed

theorem header_once_witness:
  "for_each (log_work (IssueHeader ''K'' ''S'') IssueWorklog jan_start jan_end True)
     [mid_jan 360, mid_jan 720] (developer_hours, [], True) =
   Inr (dict_set developer_hours ''Greg Thain'' (Fin (1351079888211149 / 4503599627370496)),
        [IssueHeader ''K'' ''S'',
         IssueWorklog ''Greg Thain'' (Fin (3602879701896397 / 36028797018963968)) jan_15,
         IssueWorklog ''Greg Thain'' (Fin (3602879701896397 / 18014398509481984)) jan_15],
        False)
   \<and> count_list [IssueHeader ''K'' ''S'',
         IssueWorklog ''Greg Thain'' (Fin (3602879701896397 / 36028797018963968)) jan_15,
         IssueWorklog ''Greg Thain'' (Fin (3602879701896397 / 18014398509481984)) jan_15]
        (IssueHeader ''K'' ''S'') = 1
   \<and> for_each (log_work (IssueHeader ''K'' ''S'') IssueWorklog jan_start jan_end True)
       [greg ''2023-01-01T00:00:01.000-0600'' 360] (developer_hours, [], True) =
     Inr (developer_hours, [], True)"
proof -
  let ?f = "log_work (IssueHeader ''K'' ''S'') IssueWorklog jan_start jan_end True"
  have a: "for_each ?f [mid_jan 360, mid_jan 720] (developer_hours, [], True) =
     Inr (dict_set developer_hours ''Greg Thain'' (Fin (1351079888211149 / 4503599627370496)),
        [IssueHeader ''K'' ''S'',
         IssueWorklog ''Greg Thain'' (Fin (3602879701896397 / 36028797018963968)) jan_15,
         IssueWorklog ''Greg Thain'' (Fin (3602879701896397 / 18014398509481984)) jan_15],
        False)"
    by (simp add: mid_jan_def step_logged_by_detailed greg_known hours_360 hours_720
          map_of_dict_set dict_set_twice fadd_zero_tenth fadd_tenth_fifth)
  have b: "for_each ?f [greg ''2023-01-01T00:00:01.000-0600'' 360] (developer_hours, [], True) =
     Inr (developer_hours, [], True)"
    by (simp add: log_work_def greg_def started_first_second dt_lt_irrefl)
  have d: "\<forall>a h t. IssueWorklog a h t \<noteq> IssueHeader ''K'' ''S''" by simp
  have some: "\<exists>w\<in>set [mid_jan 360, mid_jan 720]. in_window jan_start jan_end w"
    by (simp add: mid_jan_def in_window_logged_by)
  show ?thesis
    using header_once [OF a d] header_once [OF b d] a b some
    by simp
qed

end
